theory Spec2Isabelle
  imports Main "HOL-Library.AList"
begin

section \<open>Values, exceptions and the Python operations used by main.py\<close>

text \<open>
  A parsed JSON document as Python sees it after \<open>resp.json()\<close>: \<open>None\<close>, booleans,
  integers, floats, strings, lists and dicts. A float is represented by the text Python
  prints for it (\<open>repr\<close>, the shortest literal that reads back as the same float), so the
  magnitude 4.5 is \<open>JFloat ''4.5''\<close>. A dict is an association list read with
  \<open>map_of\<close>; \<open>AList.update\<close> is item assignment (an existing key keeps its place).
\<close>

datatype json =
    JNull
  | JBool bool
  | JInt int
  | JFloat string
  | JStr string
  | JArr "json list"
  | JObj "(string \<times> json) list"

datatype error =
    KeyError
  | TypeError
  | AttributeError
  | IndexError
  | RequestError
  | JSONDecodeError
  | RuntimeError

type_synonym store = "(string \<times> json) list"

text \<open>\<open>v[k]\<close> for a string key: a lookup in a dict, KeyError when the key is missing,
  TypeError on every other kind of value.\<close>

definition subscript_key :: "json \<Rightarrow> string \<Rightarrow> error + json" where
  "subscript_key v k =
     (case v of
        JObj kvs \<Rightarrow> (case map_of kvs k of None \<Rightarrow> Inl KeyError | Some x \<Rightarrow> Inr x)
      | _ \<Rightarrow> Inl TypeError)"

text \<open>\<open>v[0]\<close>: the first element of a list or the first character of a string
  (IndexError when empty); a dict parsed from JSON has string keys only, so \<open>0\<close> is a
  missing key; anything else is not subscriptable.\<close>

definition subscript_zero :: "json \<Rightarrow> error + json" where
  "subscript_zero v =
     (case v of
        JArr xs \<Rightarrow> (case xs of [] \<Rightarrow> Inl IndexError | x # _ \<Rightarrow> Inr x)
      | JStr s \<Rightarrow> (case s of [] \<Rightarrow> Inl IndexError | c # _ \<Rightarrow> Inr (JStr [c]))
      | JObj kvs \<Rightarrow> Inl KeyError
      | _ \<Rightarrow> Inl TypeError)"

text \<open>\<open>v.get(k, d)\<close> and \<open>v.get(k)\<close> (default \<open>None\<close>): only a dict has the method.\<close>

definition get_default :: "json \<Rightarrow> string \<Rightarrow> json \<Rightarrow> error + json" where
  "get_default v k d =
     (case v of
        JObj kvs \<Rightarrow> Inr (case map_of kvs k of None \<Rightarrow> d | Some x \<Rightarrow> x)
      | _ \<Rightarrow> Inl AttributeError)"

definition get_method :: "json \<Rightarrow> string \<Rightarrow> error + json" where
  "get_method v k = get_default v k JNull"

text \<open>What a \<open>for\<close> loop iterates over: the elements of a list, the keys of a dict,
  the characters of a string; TypeError for a value that is not iterable.\<close>

definition py_iter :: "json \<Rightarrow> error + json list" where
  "py_iter v =
     (case v of
        JArr xs \<Rightarrow> Inr xs
      | JObj kvs \<Rightarrow> Inr (map (\<lambda>kv. JStr (fst kv)) kvs)
      | JStr s \<Rightarrow> Inr (map (\<lambda>c. JStr [c]) s)
      | _ \<Rightarrow> Inl TypeError)"

text \<open>Decimal text of an integer, as \<open>str\<close> gives it.\<close>

fun str_nat :: "nat \<Rightarrow> string" where
  "str_nat n =
     (if n < 10 then [char_of (48 + n)]
      else str_nat (n div 10) @ [char_of (48 + n mod 10)])"

declare str_nat.simps [simp del]

definition str_int :: "int \<Rightarrow> string" where
  "str_int i = (if i < 0 then CHR ''-'' # str_nat (nat (- i)) else str_nat (nat i))"

text \<open>
  The text an f-string field \<open>{v}\<close> inserts, \<open>str(v)\<close>. For a list or a dict Python
  prints \<open>repr\<close>, which is the interpreter's and not this program's: it is the parameter
  \<open>repr\<close> of everything below.
\<close>

fun py_str :: "(json \<Rightarrow> string) \<Rightarrow> json \<Rightarrow> string" where
  "py_str repr JNull = ''None''"
| "py_str repr (JBool b) = (if b then ''True'' else ''False'')"
| "py_str repr (JInt i) = str_int i"
| "py_str repr (JFloat r) = r"
| "py_str repr (JStr s) = s"
| "py_str repr (JArr xs) = repr (JArr xs)"
| "py_str repr (JObj kvs) = repr (JObj kvs)"

section \<open>The feed aggregator: the \<open>try\<close> block of fetch_feeds\<close>

text \<open>What \<open>await client.get(url)\<close> gives: the request raises, or a response with a
  status code whose body \<open>.json()\<close> parses (\<open>Some\<close>) or rejects (\<open>None\<close>).\<close>

datatype response =
    ConnectFailed
  | Response int "json option"

record feeds =
  eq_resp :: response
  weather_resp :: response
  crypto_resp :: response

text \<open>The body of the loop over the features: one line \<open>M<mag> - <place>\<close> per feature.
  \<open>feature["properties"]\<close> is evaluated once for \<open>mag\<close> and once for \<open>place\<close>.\<close>

definition quake_line :: "(json \<Rightarrow> string) \<Rightarrow> json \<Rightarrow> error + string" where
  "quake_line repr feature =
     (case subscript_key feature ''properties'' of
        Inl e \<Rightarrow> Inl e
      | Inr props \<Rightarrow>
          (case get_method props ''mag'' of
             Inl e \<Rightarrow> Inl e
           | Inr mag \<Rightarrow>
               (case subscript_key feature ''properties'' of
                  Inl e \<Rightarrow> Inl e
                | Inr props' \<Rightarrow>
                    (case get_method props' ''place'' of
                       Inl e \<Rightarrow> Inl e
                     | Inr place \<Rightarrow>
                         Inr (''M'' @ py_str repr mag @ '' - '' @ py_str repr place)))))"

fun quakes_loop :: "(json \<Rightarrow> string) \<Rightarrow> json list \<Rightarrow> string list \<Rightarrow> error + string list" where
  "quakes_loop repr [] quakes = Inr quakes"
| "quakes_loop repr (feature # rest) quakes =
     (case quake_line repr feature of
        Inl e \<Rightarrow> Inl e
      | Inr line \<Rightarrow> quakes_loop repr rest (quakes @ [line]))"

text \<open>
  Each of the three sections below returns \<open>Inl e\<close> when the source raises \<open>e\<close>,
  \<open>Inr None\<close> when the status is not 200 (the \<open>if\<close> is skipped, nothing is assigned) and
  \<open>Inr (Some v)\<close> when \<open>v\<close> is assigned to the section.
\<close>

definition earthquakes_section :: "(json \<Rightarrow> string) \<Rightarrow> response \<Rightarrow> error + json option" where
  "earthquakes_section repr r =
     (case r of
        ConnectFailed \<Rightarrow> Inl RequestError
      | Response status body \<Rightarrow>
          if status = 200 then
            (case body of
               None \<Rightarrow> Inl JSONDecodeError
             | Some eq_json \<Rightarrow>
                 (case get_default eq_json ''features'' (JArr []) of
                    Inl e \<Rightarrow> Inl e
                  | Inr fs \<Rightarrow>
                      (case py_iter fs of
                         Inl e \<Rightarrow> Inl e
                       | Inr features \<Rightarrow>
                           (case quakes_loop repr features [] of
                              Inl e \<Rightarrow> Inl e
                            | Inr quakes \<Rightarrow> Inr (Some (JArr (map JStr quakes)))))))
          else Inr None)"

definition weather_section :: "response \<Rightarrow> error + json option" where
  "weather_section r =
     (case r of
        ConnectFailed \<Rightarrow> Inl RequestError
      | Response status body \<Rightarrow>
          if status = 200 then
            (case body of
               None \<Rightarrow> Inl JSONDecodeError
             | Some w_json \<Rightarrow>
                 (case subscript_key w_json ''current_condition'' of
                    Inl e \<Rightarrow> Inl e
                  | Inr cc \<Rightarrow>
                      (case subscript_zero cc of
                         Inl e \<Rightarrow> Inl e
                       | Inr current \<Rightarrow>
                           (case get_method current ''temp_F'' of
                              Inl e \<Rightarrow> Inl e
                            | Inr temp \<Rightarrow>
                                (case subscript_key current ''weatherDesc'' of
                                   Inl e \<Rightarrow> Inl e
                                 | Inr wd \<Rightarrow>
                                     (case subscript_zero wd of
                                        Inl e \<Rightarrow> Inl e
                                      | Inr wd0 \<Rightarrow>
                                          (case subscript_key wd0 ''value'' of
                                             Inl e \<Rightarrow> Inl e
                                           | Inr desc \<Rightarrow>
                                               Inr (Some (JObj [(''temp_F'', temp),
                                                                (''description'', desc)])))))))))
          else Inr None)"

definition crypto_section :: "response \<Rightarrow> error + json option" where
  "crypto_section r =
     (case r of
        ConnectFailed \<Rightarrow> Inl RequestError
      | Response status body \<Rightarrow>
          if status = 200 then
            (case body of
               None \<Rightarrow> Inl JSONDecodeError
             | Some c_json \<Rightarrow>
                 (case subscript_key c_json ''bpi'' of
                    Inl e \<Rightarrow> Inl e
                  | Inr bpi \<Rightarrow>
                      (case subscript_key bpi ''USD'' of
                         Inl e \<Rightarrow> Inl e
                       | Inr usd_info \<Rightarrow>
                           (case get_method usd_info ''rate'' of
                              Inl e \<Rightarrow> Inl e
                            | Inr rate \<Rightarrow> Inr (Some (JObj [(''BTC_USD'', rate)]))))))
          else Inr None)"

text \<open>\<open>data_store[k] = v\<close>, when the section got as far as the assignment.\<close>

definition assign :: "string \<Rightarrow> json option \<Rightarrow> store \<Rightarrow> store" where
  "assign k r ds = (case r of None \<Rightarrow> ds | Some v \<Rightarrow> AList.update k v ds)"

text \<open>
  The \<open>try\<close> block: the three sections in the order of the source, each writing to the
  store as it completes. An exception leaves the block at once: the store keeps what was
  written before it, and the requests after it are not made. The result is the store at
  the exit and the exception that left the block, if any.
\<close>

definition try_block :: "(json \<Rightarrow> string) \<Rightarrow> feeds \<Rightarrow> store \<Rightarrow> store \<times> error option" where
  "try_block repr f ds =
     (case earthquakes_section repr (eq_resp f) of
        Inl e \<Rightarrow> (ds, Some e)
      | Inr quakes \<Rightarrow>
          (let ds1 = assign ''earthquakes'' quakes ds in
           case weather_section (weather_resp f) of
             Inl e \<Rightarrow> (ds1, Some e)
           | Inr weather \<Rightarrow>
               (let ds2 = assign ''weather'' weather ds1 in
                case crypto_section (crypto_resp f) of
                  Inl e \<Rightarrow> (ds2, Some e)
                | Inr crypto \<Rightarrow> (assign ''crypto'' crypto ds2, None))))"

text \<open>The initial value of the global \<open>data_store\<close>.\<close>

definition data_store0 :: store where
  "data_store0 = [(''earthquakes'', JArr []), (''weather'', JObj []), (''crypto'', JObj [])]"

section \<open>The shared state, the connection handler and the broadcast loop\<close>

type_synonym handle = nat

text \<open>
  The two globals of main.py, \<open>data_store\<close> and \<open>clients\<close>, with what the program emits:
  \<open>sent\<close> lists every \<open>send_json\<close> call (the socket, the payload, whether it was
  delivered or raised), \<open>printed\<close> the exceptions reported by the \<open>except\<close> branch of the
  fetch, \<open>handler_errors\<close> the exceptions that ended a connection handler, and
  \<open>registry_ops\<close> every \<open>clients.add\<close> and \<open>clients.remove\<close> that completed, in order.
\<close>

datatype reg_op =
    Add handle
  | Remove handle

record sys =
  data_store :: store
  clients :: "handle set"
  sent :: "(handle \<times> json \<times> bool) list"
  printed :: "error list"
  handler_errors :: "(handle \<times> error) list"
  registry_ops :: "reg_op list"

definition sys0 :: sys where
  "sys0 = \<lparr>data_store = data_store0, clients = {}, sent = [], printed = [],
           handler_errors = [], registry_ops = []\<rparr>"

text \<open>Python's \<open>set.add\<close> and \<open>set.remove\<close>; \<open>remove\<close> raises KeyError when the element
  is not in the set.\<close>

definition set_add :: "handle \<Rightarrow> handle set \<Rightarrow> handle set" where
  "set_add h cl = insert h cl"

definition set_remove :: "handle \<Rightarrow> handle set \<Rightarrow> error + handle set" where
  "set_remove h cl = (if h \<in> cl then Inr (cl - {h}) else Inl KeyError)"

text \<open>\<open>list(clients)\<close>: the members of the set, each once, in the order the set happens to
  iterate in.\<close>

definition is_copy :: "handle list \<Rightarrow> handle set \<Rightarrow> bool" where
  "is_copy members cl = (distinct members \<and> set members = cl)"

text \<open>
  What a client sends is a text frame or a binary frame. \<open>receive_text()\<close> returns the
  text of a text frame; the message of a binary frame has no \<open>"text"\<close> entry, and the
  lookup in \<open>receive_text()\<close> raises KeyError.
\<close>

datatype frame =
    TextFrame string
  | BytesFrame string

definition receive_text :: "frame \<Rightarrow> error + string" where
  "receive_text fr = (case fr of TextFrame txt \<Rightarrow> Inr txt | BytesFrame b \<Rightarrow> Inl KeyError)"

text \<open>
  What a connection handler (websocket_endpoint) does between two suspensions:
  \<^item> \<open>Accept h\<close>: \<open>accept()\<close> returned and the socket is added to \<open>clients\<close>;
  \<^item> \<open>Receive h fr\<close>: the client sent the frame \<open>fr\<close>. When \<open>receive_text()\<close> returns,
    the text is dropped and the handler waits again. When it raises, the exception is not
    a WebSocketDisconnect, the \<open>except\<close> clause does not catch it, and the handler ends
    with it, without \<open>clients.remove\<close>;
  \<^item> \<open>Disconnect h\<close>: \<open>receive_text()\<close> raised WebSocketDisconnect and the handler runs
    \<open>clients.remove(websocket)\<close>; a KeyError there ends the handler with that exception;
  \<^item> \<open>Raised h e\<close>: \<open>receive_text()\<close> raised \<open>e\<close>, some other exception than
    WebSocketDisconnect, for another reason than a frame (a RuntimeError on a socket that
    is no longer connected, say); the handler ends with it, without \<open>clients.remove\<close>.
\<close>

datatype event =
    Accept handle
  | Receive handle frame
  | Disconnect handle
  | Raised handle error

fun websocket_endpoint :: "event \<Rightarrow> sys \<Rightarrow> sys" where
  "websocket_endpoint (Accept h) s =
     s\<lparr>clients := set_add h (clients s), registry_ops := registry_ops s @ [Add h]\<rparr>"
| "websocket_endpoint (Receive h fr) s =
     (case receive_text fr of
        Inl e \<Rightarrow> s\<lparr>handler_errors := handler_errors s @ [(h, e)]\<rparr>
      | Inr txt \<Rightarrow> s)"
| "websocket_endpoint (Disconnect h) s =
     (case set_remove h (clients s) of
        Inl e \<Rightarrow> s\<lparr>handler_errors := handler_errors s @ [(h, e)]\<rparr>
      | Inr cl \<Rightarrow> s\<lparr>clients := cl, registry_ops := registry_ops s @ [Remove h]\<rparr>)"
| "websocket_endpoint (Raised h e) s = s\<lparr>handler_errors := handler_errors s @ [(h, e)]\<rparr>"

fun handlers :: "event list \<Rightarrow> sys \<Rightarrow> sys" where
  "handlers [] s = s"
| "handlers (e # es) s = handlers es (websocket_endpoint e s)"

text \<open>The fetch phase of one cycle: the \<open>try\<close> block and its \<open>except Exception\<close>, which
  prints the exception and goes on.\<close>

definition fetch_phase :: "(json \<Rightarrow> string) \<Rightarrow> feeds \<Rightarrow> sys \<Rightarrow> sys" where
  "fetch_phase repr f s =
     (case try_block repr f (data_store s) of
        (ds, None) \<Rightarrow> s\<lparr>data_store := ds\<rparr>
      | (ds, Some e) \<Rightarrow> s\<lparr>data_store := ds, printed := printed s @ [e]\<rparr>)"

text \<open>
  The broadcast phase, \<open>for ws in list(clients)\<close>. The loop task is suspended while it
  awaits \<open>send_json\<close>, and the connection handlers run meanwhile: \<open>during\<close> are their
  steps while the send to a socket is pending, \<open>delivered\<close> tells whether that send
  returned or raised. When it raised, \<open>clients.remove(ws)\<close> runs inside the \<open>except\<close>
  branch; an exception there is caught by nothing and leaves the loop (\<open>Inl\<close>, with the
  state at that moment).
\<close>

record push_env =
  during :: "event list"
  delivered :: bool

fun broadcast :: "(handle \<Rightarrow> push_env) \<Rightarrow> handle list \<Rightarrow> sys \<Rightarrow> (error \<times> sys) + sys" where
  "broadcast env [] s = Inr s"
| "broadcast env (ws # rest) s =
     (let payload = JObj (data_store s);
          s1 = handlers (during (env ws)) s;
          s2 = s1\<lparr>sent := sent s1 @ [(ws, payload, delivered (env ws))]\<rparr>
      in if delivered (env ws) then broadcast env rest s2
         else (case set_remove ws (clients s2) of
                 Inl e \<Rightarrow> Inl (e, s2)
               | Inr cl \<Rightarrow>
                   broadcast env rest
                     (s2\<lparr>clients := cl, registry_ops := registry_ops s2 @ [Remove ws]\<rparr>)))"

text \<open>
  One pass through the body of \<open>while True\<close>: \<open>before\<close> are the handler steps while the
  loop awaits the three requests, \<open>members\<close> is the list \<open>list(clients)\<close> yields, \<open>pushes\<close>
  describes each send, \<open>asleep\<close> are the handler steps during \<open>asyncio.sleep(60)\<close>.
  The handlers touch \<open>clients\<close> only and the fetch touches \<open>data_store\<close> only, so the
  handler steps of the fetch phase are run first (the two commute, as proved below).
\<close>

record cycle_in =
  responses :: feeds
  before :: "event list"
  members :: "handle list"
  pushes :: "handle \<Rightarrow> push_env"
  asleep :: "event list"

definition cycle :: "(json \<Rightarrow> string) \<Rightarrow> cycle_in \<Rightarrow> sys \<Rightarrow> (error \<times> sys) + sys" where
  "cycle repr c s =
     (case broadcast (pushes c) (members c) (fetch_phase repr (responses c) (handlers (before c) s)) of
        Inl x \<Rightarrow> Inl x
      | Inr s' \<Rightarrow> Inr (handlers (asleep c) s'))"

text \<open>The loop of fetch_feeds over the first cycles of a run: it goes on for as long as no
  exception leaves a cycle.\<close>

fun fetch_feeds :: "(json \<Rightarrow> string) \<Rightarrow> cycle_in list \<Rightarrow> sys \<Rightarrow> (error \<times> sys) + sys" where
  "fetch_feeds repr [] s = Inr s"
| "fetch_feeds repr (c # cs) s =
     (case cycle repr c s of
        Inl x \<Rightarrow> Inl x
      | Inr s' \<Rightarrow> fetch_feeds repr cs s')"

text \<open>The state a run ends in, whether the loop is still running or an exception left it.\<close>

fun final :: "(error \<times> sys) + sys \<Rightarrow> sys" where
  "final (Inl (e, s)) = s"
| "final (Inr s) = s"

text \<open>The most recent completed registry operation on a handle: \<open>Some True\<close> an add,
  \<open>Some False\<close> a remove, \<open>None\<close> when there was none.\<close>

fun last_op :: "handle \<Rightarrow> reg_op list \<Rightarrow> bool option" where
  "last_op h [] = None"
| "last_op h (x # xs) =
     (case last_op h xs of
        Some b \<Rightarrow> Some b
      | None \<Rightarrow> (if x = Add h then Some True else if x = Remove h then Some False else None))"

text \<open>A run from which the text frames of the client \<open>h\<close> are erased: the steps in
  which its handler receives one are left out everywhere.\<close>

fun text_of :: "handle \<Rightarrow> event \<Rightarrow> bool" where
  "text_of h (Receive h' (TextFrame txt)) = (h' = h)"
| "text_of h (Receive h' (BytesFrame b)) = False"
| "text_of h (Accept h') = False"
| "text_of h (Disconnect h') = False"
| "text_of h (Raised h' e) = False"

definition silent :: "handle \<Rightarrow> event list \<Rightarrow> event list" where
  "silent h es = filter (\<lambda>e. \<not> text_of h e) es"

definition silent_cycle :: "handle \<Rightarrow> cycle_in \<Rightarrow> cycle_in" where
  "silent_cycle h c =
     c\<lparr>before := silent h (before c),
       pushes := (\<lambda>w. (pushes c w)\<lparr>during := silent h (during (pushes c w))\<rparr>),
       asleep := silent h (asleep c)\<rparr>"

text \<open>The shape of the store: the three sections under their names, in the order of the
  dict literal; \<open>earthquakes\<close> a list of strings, \<open>weather\<close> and \<open>crypto\<close> dicts.\<close>

fun is_str :: "json \<Rightarrow> bool" where
  "is_str (JStr s) = True"
| "is_str v = False"

fun is_str_list :: "json \<Rightarrow> bool" where
  "is_str_list (JArr xs) = list_all is_str xs"
| "is_str_list v = False"

fun is_dict :: "json \<Rightarrow> bool" where
  "is_dict (JObj kvs) = True"
| "is_dict v = False"

text \<open>The three sections of the store, as a reader of \<open>data_store\<close> finds them.\<close>

definition sections :: "sys \<Rightarrow> json option \<times> json option \<times> json option" where
  "sections s =
     (map_of (data_store s) ''earthquakes'', map_of (data_store s) ''weather'',
      map_of (data_store s) ''crypto'')"

text \<open>What two runs have in common when they differ in the payloads only: the registry,
  and the sockets sent to with the outcome of each send.\<close>

fun target :: "handle \<times> json \<times> bool \<Rightarrow> handle \<times> bool" where
  "target (w, payload, ok) = (w, ok)"

definition same_pushes :: "sys \<Rightarrow> sys \<Rightarrow> bool" where
  "same_pushes s t =
     (clients s = clients t \<and> map target (sent s) = map target (sent t) \<and>
      handler_errors s = handler_errors t \<and> registry_ops s = registry_ops t)"

definition store_shape :: "store \<Rightarrow> bool" where
  "store_shape ds =
     (case ds of
        [(k1, v1), (k2, v2), (k3, v3)] \<Rightarrow>
          k1 = ''earthquakes'' \<and> k2 = ''weather'' \<and> k3 = ''crypto'' \<and>
          is_str_list v1 \<and> is_dict v2 \<and> is_dict v3
      | _ \<Rightarrow> False)"

section \<open>Sample inputs\<close>

text \<open>The three mocked feed responses of the end-to-end example, and a \<open>repr\<close> for closed
  examples (none of them formats a list or a dict).\<close>

definition sample_eq :: response where
  "sample_eq = Response 200 (Some (JObj
     [(''type'', JStr ''FeatureCollection''),
      (''features'', JArr
        [JObj [(''type'', JStr ''Feature''),
               (''properties'', JObj [(''mag'', JFloat ''4.5''), (''place'', JStr ''10km N of X'')])],
         JObj [(''type'', JStr ''Feature''),
               (''properties'', JObj [(''mag'', JFloat ''2.1''), (''place'', JStr ''5km S of Y'')])]])]))"

definition sample_weather :: response where
  "sample_weather = Response 200 (Some (JObj
     [(''current_condition'', JArr
        [JObj [(''temp_F'', JInt 72),
               (''weatherDesc'', JArr [JObj [(''value'', JStr ''Sunny'')]])]])]))"

definition sample_crypto :: response where
  "sample_crypto = Response 200 (Some (JObj
     [(''bpi'', JObj [(''USD'', JObj [(''code'', JStr ''USD''), (''rate'', JStr ''64,523.10'')])])]))"

definition sample_feeds :: feeds where
  "sample_feeds = \<lparr>eq_resp = sample_eq, weather_resp = sample_weather, crypto_resp = sample_crypto\<rparr>"

definition sample_repr :: "json \<Rightarrow> string" where
  "sample_repr v = ''<repr>''"

text \<open>Three ways the sends of a broadcast can go: every send is delivered; the send to
  \<open>a\<close> raises and nothing else happens meanwhile; the socket \<open>a\<close> closes while the send
  to it is pending, so that its handler sees the disconnect and the send raises.\<close>

definition all_delivered :: "handle \<Rightarrow> push_env" where
  "all_delivered w = \<lparr>during = [], delivered = True\<rparr>"

definition failing :: "handle \<Rightarrow> handle \<Rightarrow> push_env" where
  "failing a w = \<lparr>during = [], delivered = (w \<noteq> a)\<rparr>"

definition closing :: "handle \<Rightarrow> handle \<Rightarrow> push_env" where
  "closing a w = \<lparr>during = (if w = a then [Disconnect a] else []), delivered = (w \<noteq> a)\<rparr>"

text \<open>
  Sample cycles. In \<open>cycle_prune\<close> the clients 1 and 2 have connected, the send to 1
  raises and 1 is pruned; while the loop sleeps the handler of 1 sees the disconnect and
  client 3 connects. In \<open>cycle_race\<close> the weather feed answers 503, and the socket 1
  closes while the send to it is pending. \<open>cycle_next\<close> is an ordinary cycle with one
  more client.
\<close>

definition cycle_prune :: cycle_in where
  "cycle_prune =
     \<lparr>responses = sample_feeds, before = [Accept 1, Accept 2], members = [1, 2],
      pushes = failing 1, asleep = [Disconnect 1, Accept 3]\<rparr>"

definition cycle_race :: cycle_in where
  "cycle_race =
     \<lparr>responses = \<lparr>eq_resp = sample_eq, weather_resp = Response 503 None,
                    crypto_resp = sample_crypto\<rparr>,
      before = [Accept 1, Accept 2], members = [1, 2], pushes = closing 1, asleep = []\<rparr>"

definition cycle_next :: cycle_in where
  "cycle_next =
     \<lparr>responses = sample_feeds, before = [Accept 4], members = [2, 4],
      pushes = all_delivered, asleep = []\<rparr>"

text \<open>
  In \<open>cycle_down_race\<close> the three requests fail (the first raises, so the other two are
  not made), and the socket 1 closes while the send to it is pending.
\<close>

definition cycle_down_race :: cycle_in where
  "cycle_down_race =
     \<lparr>responses = \<lparr>eq_resp = ConnectFailed, weather_resp = ConnectFailed,
                    crypto_resp = ConnectFailed\<rparr>,
      before = [Accept 1, Accept 2], members = [1, 2], pushes = closing 1, asleep = []\<rparr>"

text \<open>
  A broadcast over the copy \<open>[1, 2, 3]\<close> during which the registry changes: while the
  send to 1 is pending, the socket 2 closes (its handler deregisters it) and client 4
  connects; that send is delivered, the send to 2 raises, the send to 3 would be
  delivered.
\<close>

definition mutating :: "handle \<Rightarrow> push_env" where
  "mutating w =
     \<lparr>during = (if w = 1 then [Disconnect 2, Accept 4] else []), delivered = (w \<noteq> 2)\<rparr>"

text \<open>
  Two cycles that differ in what client 1 sends. In \<open>cycle_quiet\<close> it connects and sends
  nothing. In \<open>cycle_binary\<close> it connects and sends one binary frame: its handler ends,
  the server closes the connection of a handler that has ended, and the send to 1 raises.
\<close>

definition cycle_quiet :: cycle_in where
  "cycle_quiet =
     \<lparr>responses = sample_feeds, before = [Accept 1, Accept 2], members = [1, 2],
      pushes = all_delivered, asleep = []\<rparr>"

definition cycle_binary :: cycle_in where
  "cycle_binary =
     \<lparr>responses = sample_feeds,
      before = [Accept 1, Accept 2, Receive 1 (BytesFrame ''ping'')], members = [1, 2],
      pushes = failing 1, asleep = []\<rparr>"

section \<open>The store after a fetch\<close>

text \<open>The definitions a closed example unfolds: the sample inputs, and the steps of the
  program.\<close>

lemmas sample_defs = cycle_prune_def cycle_race_def cycle_next_def cycle_down_race_def
  cycle_quiet_def cycle_binary_def mutating_def sample_feeds_def sample_eq_def
  sample_weather_def sample_crypto_def failing_def closing_def all_delivered_def sys0_def
  data_store0_def
lemmas code_defs = cycle_def fetch_phase_def try_block_def assign_def
  earthquakes_section_def weather_section_def crypto_section_def quake_line_def
  subscript_key_def subscript_zero_def get_method_def get_default_def py_iter_def
  set_add_def set_remove_def receive_text_def

lemma map_of_assign_same: "map_of (assign k (Some v) ds) k = Some v"
  by (simp add: assign_def update_conv')

lemma map_of_assign_none: "map_of (assign k None ds) k' = map_of ds k'"
  by (simp add: assign_def)

lemma map_of_assign_other: "k' \<noteq> k \<Longrightarrow> map_of (assign k r ds) k' = map_of ds k'"
  by (cases r) (simp_all add: assign_def update_conv')

lemma quakes_loop_lines:
  "quakes_loop repr features acc = Inr quakes \<Longrightarrow>
     \<exists>new. quakes = acc @ new \<and> map (quake_line repr) features = map Inr new"
proof (induction features arbitrary: acc)
  case Nil
  then show ?case by simp
next
  case (Cons feature rest)
  then obtain line where l: "quake_line repr feature = Inr line"
    and r: "quakes_loop repr rest (acc @ [line]) = Inr quakes"
    by (auto split: sum.splits)
  from Cons.IH [OF r] obtain new where "quakes = (acc @ [line]) @ new"
    and "map (quake_line repr) rest = map Inr new" by blast
  with l show ?case by (intro exI [of _ "line # new"]) simp
qed

lemma data_store_fetch_phase:
  "data_store (fetch_phase repr f s) = fst (try_block repr f (data_store s))"
  by (simp add: fetch_phase_def split: prod.splits option.splits)

text \<open>
  Claim C6. With the mocked seismic response holding two features of magnitudes 4.5 and
  2.1 at "10km N of X" and "5km S of Y", the mocked weather response with temp_F 72 and
  description "Sunny", and the mocked currency response with rate "64,523.10", the fetch
  leaves \<open>["M4.5 - 10km N of X", "M2.1 - 5km S of Y"]\<close> in the seismic section (one string
  per feature, in feed order), \<open>{temp_F: 72, description: "Sunny"}\<close> in the weather
  section and \<open>{BTC_USD: "64,523.10"}\<close> in the currency section, whatever else the
  responses carry and whatever the store held before.
\<close>

theorem feed_sections_formatted:
  assumes "map_of eq_json ''features'' = Some (JArr [JObj fa, JObj fb])"
    and "map_of fa ''properties'' = Some (JObj pa)"
    and "map_of pa ''mag'' = Some (JFloat ''4.5'')"
    and "map_of pa ''place'' = Some (JStr ''10km N of X'')"
    and "map_of fb ''properties'' = Some (JObj pb)"
    and "map_of pb ''mag'' = Some (JFloat ''2.1'')"
    and "map_of pb ''place'' = Some (JStr ''5km S of Y'')"
    and "map_of w_json ''current_condition'' = Some (JArr (JObj current # others))"
    and "map_of current ''temp_F'' = Some (JInt 72)"
    and "map_of current ''weatherDesc'' = Some (JArr (JObj desc # others'))"
    and "map_of desc ''value'' = Some (JStr ''Sunny'')"
    and "map_of c_json ''bpi'' = Some (JObj bpi)"
    and "map_of bpi ''USD'' = Some (JObj usd_info)"
    and "map_of usd_info ''rate'' = Some (JStr ''64,523.10'')"
    and "f = \<lparr>eq_resp = Response 200 (Some (JObj eq_json)),
              weather_resp = Response 200 (Some (JObj w_json)),
              crypto_resp = Response 200 (Some (JObj c_json))\<rparr>"
  shows "map_of (data_store (fetch_phase repr f s)) ''earthquakes''
           = Some (JArr [JStr ''M4.5 - 10km N of X'', JStr ''M2.1 - 5km S of Y''])
         \<and> map_of (data_store (fetch_phase repr f s)) ''weather''
           = Some (JObj [(''temp_F'', JInt 72), (''description'', JStr ''Sunny'')])
         \<and> map_of (data_store (fetch_phase repr f s)) ''crypto''
           = Some (JObj [(''BTC_USD'', JStr ''64,523.10'')])"
proof -
  have l1: "quake_line repr (JObj fa) = Inr ''M4.5 - 10km N of X''"
    using assms(2-4) by (simp add: quake_line_def subscript_key_def get_method_def get_default_def)
  have l2: "quake_line repr (JObj fb) = Inr ''M2.1 - 5km S of Y''"
    using assms(5-7) by (simp add: quake_line_def subscript_key_def get_method_def get_default_def)
  have e: "earthquakes_section repr (eq_resp f)
             = Inr (Some (JArr [JStr ''M4.5 - 10km N of X'', JStr ''M2.1 - 5km S of Y'']))"
    using assms(1) l1 l2
    by (simp add: assms(15) earthquakes_section_def get_default_def py_iter_def)
  have w: "weather_section (weather_resp f)
             = Inr (Some (JObj [(''temp_F'', JInt 72), (''description'', JStr ''Sunny'')]))"
    using assms(8-11)
    by (simp add: assms(15) weather_section_def subscript_key_def subscript_zero_def
        get_method_def get_default_def)
  have c: "crypto_section (crypto_resp f) = Inr (Some (JObj [(''BTC_USD'', JStr ''64,523.10'')]))"
    using assms(12-14)
    by (simp add: assms(15) crypto_section_def subscript_key_def get_method_def get_default_def)
  show ?thesis
    by (simp add: data_store_fetch_phase try_block_def e w c Let_def
        map_of_assign_same map_of_assign_other)
qed

theorem feed_sections_formatted_witness:
  "data_store (fetch_phase sample_repr sample_feeds sys0)
     = [(''earthquakes'', JArr [JStr ''M4.5 - 10km N of X'', JStr ''M2.1 - 5km S of Y'']),
        (''weather'', JObj [(''temp_F'', JInt 72), (''description'', JStr ''Sunny'')]),
        (''crypto'', JObj [(''BTC_USD'', JStr ''64,523.10'')])]
   \<and> map_of (data_store (fetch_phase sample_repr sample_feeds sys0)) ''earthquakes''
       = Some (JArr [JStr ''M4.5 - 10km N of X'', JStr ''M2.1 - 5km S of Y''])
   \<and> map_of (data_store (fetch_phase sample_repr sample_feeds sys0)) ''weather''
       = Some (JObj [(''temp_F'', JInt 72), (''description'', JStr ''Sunny'')])
   \<and> map_of (data_store (fetch_phase sample_repr sample_feeds sys0)) ''crypto''
       = Some (JObj [(''BTC_USD'', JStr ''64,523.10'')])"
proof -
  have whole: "data_store (fetch_phase sample_repr sample_feeds sys0)
     = [(''earthquakes'', JArr [JStr ''M4.5 - 10km N of X'', JStr ''M2.1 - 5km S of Y'']),
        (''weather'', JObj [(''temp_F'', JInt 72), (''description'', JStr ''Sunny'')]),
        (''crypto'', JObj [(''BTC_USD'', JStr ''64,523.10'')])]"
    by (simp add: fetch_phase_def try_block_def sample_feeds_def sample_eq_def
        sample_weather_def sample_crypto_def sys0_def data_store0_def assign_def
        earthquakes_section_def weather_section_def crypto_section_def quake_line_def
        subscript_key_def subscript_zero_def get_method_def get_default_def py_iter_def)
  have parts: "map_of (data_store (fetch_phase sample_repr sample_feeds sys0)) ''earthquakes''
       = Some (JArr [JStr ''M4.5 - 10km N of X'', JStr ''M2.1 - 5km S of Y''])
   \<and> map_of (data_store (fetch_phase sample_repr sample_feeds sys0)) ''weather''
       = Some (JObj [(''temp_F'', JInt 72), (''description'', JStr ''Sunny'')])
   \<and> map_of (data_store (fetch_phase sample_repr sample_feeds sys0)) ''crypto''
       = Some (JObj [(''BTC_USD'', JStr ''64,523.10'')])"
    by (rule feed_sections_formatted [where
          eq_json = "[(''type'', JStr ''FeatureCollection''),
      (''features'', JArr
        [JObj [(''type'', JStr ''Feature''),
               (''properties'', JObj [(''mag'', JFloat ''4.5''), (''place'', JStr ''10km N of X'')])],
         JObj [(''type'', JStr ''Feature''),
               (''properties'', JObj [(''mag'', JFloat ''2.1''), (''place'', JStr ''5km S of Y'')])]])]"
          and w_json = "[(''current_condition'', JArr
        [JObj [(''temp_F'', JInt 72),
               (''weatherDesc'', JArr [JObj [(''value'', JStr ''Sunny'')]])]])]"
          and c_json = "[(''bpi'', JObj [(''USD'', JObj [(''code'', JStr ''USD''), (''rate'', JStr ''64,523.10'')])])]"
          and fa = "[(''type'', JStr ''Feature''),
               (''properties'', JObj [(''mag'', JFloat ''4.5''), (''place'', JStr ''10km N of X'')])]"
          and pa = "[(''mag'', JFloat ''4.5''), (''place'', JStr ''10km N of X'')]"
          and fb = "[(''type'', JStr ''Feature''),
               (''properties'', JObj [(''mag'', JFloat ''2.1''), (''place'', JStr ''5km S of Y'')])]"
          and pb = "[(''mag'', JFloat ''2.1''), (''place'', JStr ''5km S of Y'')]"
          and current = "[(''temp_F'', JInt 72),
               (''weatherDesc'', JArr [JObj [(''value'', JStr ''Sunny'')]])]"
          and others = "[]"
          and desc = "[(''value'', JStr ''Sunny'')]"
          and others' = "[]"
          and bpi = "[(''USD'', JObj [(''code'', JStr ''USD''), (''rate'', JStr ''64,523.10'')])]"
          and usd_info = "[(''code'', JStr ''USD''), (''rate'', JStr ''64,523.10'')]"])
      (simp_all add: sample_feeds_def sample_eq_def sample_weather_def sample_crypto_def)
  from whole parts show ?thesis by blast
qed

text \<open>
  Claim C7. After a successful seismic fetch (status 200, a body that parses, features
  that can be iterated and formatted) the seismic section is exactly the list of lines
  made from the new response, one per feature in feed order; the right-hand side does not
  mention the previous store, so nothing of the previous list survives.
\<close>

theorem seismic_replaced_wholesale:
  assumes "eq_resp f = Response 200 (Some eq_json)"
    and "get_default eq_json ''features'' (JArr []) = Inr fs"
    and "py_iter fs = Inr features"
    and "quakes_loop repr features [] = Inr quakes"
  shows "map_of (data_store (fetch_phase repr f s)) ''earthquakes'' = Some (JArr (map JStr quakes))
         \<and> map (quake_line repr) features = map Inr quakes"
proof -
  have sec: "earthquakes_section repr (eq_resp f) = Inr (Some (JArr (map JStr quakes)))"
    using assms by (simp add: earthquakes_section_def)
  have "map_of (fst (try_block repr f ds)) ''earthquakes'' = Some (JArr (map JStr quakes))" for ds
    by (simp add: try_block_def sec Let_def map_of_assign_same map_of_assign_other
        split: sum.splits)
  moreover from quakes_loop_lines [OF assms(4)]
  have "map (quake_line repr) features = map Inr quakes" by simp
  ultimately show ?thesis by (simp add: data_store_fetch_phase)
qed

theorem seismic_replaced_wholesale_witness:
  "map_of (data_store (fetch_phase sample_repr sample_feeds
       (sys0\<lparr>data_store := [(''earthquakes'', JArr [JStr ''M1.0 - old'']),
                              (''weather'', JObj []), (''crypto'', JObj [])]\<rparr>))) ''earthquakes''
     = Some (JArr [JStr ''M4.5 - 10km N of X'', JStr ''M2.1 - 5km S of Y''])"
  using seismic_replaced_wholesale [where f = sample_feeds and repr = sample_repr
      and eq_json = "JObj
     [(''type'', JStr ''FeatureCollection''),
      (''features'', JArr
        [JObj [(''type'', JStr ''Feature''),
               (''properties'', JObj [(''mag'', JFloat ''4.5''), (''place'', JStr ''10km N of X'')])],
         JObj [(''type'', JStr ''Feature''),
               (''properties'', JObj [(''mag'', JFloat ''2.1''), (''place'', JStr ''5km S of Y'')])]])]"
      and fs = "JArr
        [JObj [(''type'', JStr ''Feature''),
               (''properties'', JObj [(''mag'', JFloat ''4.5''), (''place'', JStr ''10km N of X'')])],
         JObj [(''type'', JStr ''Feature''),
               (''properties'', JObj [(''mag'', JFloat ''2.1''), (''place'', JStr ''5km S of Y'')])]]"
      and features = "[JObj [(''type'', JStr ''Feature''),
               (''properties'', JObj [(''mag'', JFloat ''4.5''), (''place'', JStr ''10km N of X'')])],
         JObj [(''type'', JStr ''Feature''),
               (''properties'', JObj [(''mag'', JFloat ''2.1''), (''place'', JStr ''5km S of Y'')])]]"
      and quakes = "[''M4.5 - 10km N of X'', ''M2.1 - 5km S of Y'']"
      and s = "sys0\<lparr>data_store := [(''earthquakes'', JArr [JStr ''M1.0 - old'']),
                              (''weather'', JObj []), (''crypto'', JObj [])]\<rparr>"]
  by (simp add: sample_feeds_def sample_eq_def get_default_def py_iter_def quake_line_def
      subscript_key_def get_method_def)

text \<open>What each way of failing gives, and two bodies in which a field read with \<open>get\<close> is
  absent: they raise nothing and are assigned.\<close>

lemma printed_fetch_phase:
  "printed (fetch_phase repr f s)
     = (case snd (try_block repr f (data_store s)) of None \<Rightarrow> printed s
        | Some e \<Rightarrow> printed s @ [e])"
  by (simp add: fetch_phase_def split: prod.splits option.splits)

lemma section_outcomes:
  "earthquakes_section repr ConnectFailed = Inl RequestError"
  "weather_section ConnectFailed = Inl RequestError"
  "crypto_section ConnectFailed = Inl RequestError"
  "earthquakes_section repr (Response 200 None) = Inl JSONDecodeError"
  "weather_section (Response 200 None) = Inl JSONDecodeError"
  "crypto_section (Response 200 None) = Inl JSONDecodeError"
  "status \<noteq> 200 \<Longrightarrow> earthquakes_section repr (Response status body) = Inr None"
  "status \<noteq> 200 \<Longrightarrow> weather_section (Response status body) = Inr None"
  "status \<noteq> 200 \<Longrightarrow> crypto_section (Response status body) = Inr None"
  "earthquakes_section repr (Response 200 body) \<noteq> Inr None"
  "weather_section (Response 200 body) \<noteq> Inr None"
  "crypto_section (Response 200 body) \<noteq> Inr None"
  by (simp_all add: earthquakes_section_def weather_section_def crypto_section_def
      split: option.splits sum.splits)

lemma absent_get_fields:
  "map_of eq_json ''features'' = None \<Longrightarrow>
     earthquakes_section repr (Response 200 (Some (JObj eq_json))) = Inr (Some (JArr []))"
  "map_of c_json ''bpi'' = Some (JObj bpi) \<Longrightarrow> map_of bpi ''USD'' = Some (JObj usd_info) \<Longrightarrow>
   map_of usd_info ''rate'' = None \<Longrightarrow>
     crypto_section (Response 200 (Some (JObj c_json))) = Inr (Some (JObj [(''BTC_USD'', JNull)]))"
  by (simp_all add: earthquakes_section_def crypto_section_def get_default_def get_method_def
      py_iter_def subscript_key_def)

text \<open>
  Claim C1, as stated, fails: one \<open>try\<close> block holds the three requests, so an
  exception in the seismic request (here a network error) leaves the block before the
  weather and currency requests are made. Both of them would have succeeded, and their
  sections keep the initial values.
\<close>

theorem one_feed_failure_counterexample:
  "earthquakes_section sample_repr ConnectFailed = Inl RequestError
   \<and> weather_section sample_weather
       = Inr (Some (JObj [(''temp_F'', JInt 72), (''description'', JStr ''Sunny'')]))
   \<and> crypto_section sample_crypto = Inr (Some (JObj [(''BTC_USD'', JStr ''64,523.10'')]))
   \<and> sections (fetch_phase sample_repr
        \<lparr>eq_resp = ConnectFailed, weather_resp = sample_weather, crypto_resp = sample_crypto\<rparr>
        sys0) = (Some (JArr []), Some (JObj []), Some (JObj []))
   \<and> sections (fetch_phase sample_repr
        \<lparr>eq_resp = ConnectFailed, weather_resp = sample_weather, crypto_resp = sample_crypto\<rparr>
        sys0)
       \<noteq> (Some (JArr []), Some (JObj [(''temp_F'', JInt 72), (''description'', JStr ''Sunny'')]),
          Some (JObj [(''BTC_USD'', JStr ''64,523.10'')]))"
  by (simp add: sections_def fetch_phase_def try_block_def earthquakes_section_def
      weather_section_def crypto_section_def sample_weather_def sample_crypto_def
      subscript_key_def subscript_zero_def get_method_def get_default_def sys0_def data_store0_def)

text \<open>
  Claim C1, amended. A fetch fails when its request raises (a network error), when the
  status of its response is not 200, or when the code raises while it reads the body of a
  200 response (a body that is not JSON is one case). Every other 200 response is a
  success, and its section is assigned what the code builds from the body; a field read
  with \<open>get\<close> that is absent raises nothing: a seismic body without \<open>features\<close> gives the
  empty list and a currency body without \<open>rate\<close> gives \<open>{BTC_USD: None}\<close>. In a cycle in
  which exactly one fetch fails and the other two succeed, the failing source's section
  keeps its previous value. When the failure is a status other than 200, the other two
  sections hold the newly built values and nothing is printed. When the failure is an
  exception, the sections of the sources requested before the failing one (the order is
  seismic, weather, currency) hold the newly built values, the sections of the sources
  after it keep their previous values, and the exception is caught and printed.
\<close>

theorem one_feed_failure_amended:
  assumes "sections s = (e_old, w_old, c_old)"
  shows "(earthquakes_section repr ConnectFailed = Inl RequestError
          \<and> weather_section ConnectFailed = Inl RequestError
          \<and> crypto_section ConnectFailed = Inl RequestError
          \<and> earthquakes_section repr (Response 200 None) = Inl JSONDecodeError
          \<and> weather_section (Response 200 None) = Inl JSONDecodeError
          \<and> crypto_section (Response 200 None) = Inl JSONDecodeError)
       \<and> (status \<noteq> 200 \<longrightarrow>
            earthquakes_section repr (Response status body) = Inr None
            \<and> weather_section (Response status body) = Inr None
            \<and> crypto_section (Response status body) = Inr None)
       \<and> (earthquakes_section repr (Response 200 body) \<noteq> Inr None
          \<and> weather_section (Response 200 body) \<noteq> Inr None
          \<and> crypto_section (Response 200 body) \<noteq> Inr None)
       \<and> (map_of eq_json ''features'' = None \<longrightarrow>
            earthquakes_section repr (Response 200 (Some (JObj eq_json))) = Inr (Some (JArr [])))
       \<and> (map_of c_json ''bpi'' = Some (JObj bpi) \<and> map_of bpi ''USD'' = Some (JObj usd_info)
          \<and> map_of usd_info ''rate'' = None \<longrightarrow>
            crypto_section (Response 200 (Some (JObj c_json)))
              = Inr (Some (JObj [(''BTC_USD'', JNull)])))
       \<and> (eq_resp f = Response status body \<and> status \<noteq> 200
          \<and> weather_section (weather_resp f) = Inr (Some w)
          \<and> crypto_section (crypto_resp f) = Inr (Some c)
          \<longrightarrow> sections (fetch_phase repr f s) = (e_old, Some w, Some c)
              \<and> printed (fetch_phase repr f s) = printed s)
       \<and> (earthquakes_section repr (eq_resp f) = Inr (Some q)
          \<and> weather_resp f = Response status body \<and> status \<noteq> 200
          \<and> crypto_section (crypto_resp f) = Inr (Some c)
          \<longrightarrow> sections (fetch_phase repr f s) = (Some q, w_old, Some c)
              \<and> printed (fetch_phase repr f s) = printed s)
       \<and> (earthquakes_section repr (eq_resp f) = Inr (Some q)
          \<and> weather_section (weather_resp f) = Inr (Some w)
          \<and> crypto_resp f = Response status body \<and> status \<noteq> 200
          \<longrightarrow> sections (fetch_phase repr f s) = (Some q, Some w, c_old)
              \<and> printed (fetch_phase repr f s) = printed s)
       \<and> (earthquakes_section repr (eq_resp f) = Inl x
          \<and> weather_section (weather_resp f) = Inr (Some w)
          \<and> crypto_section (crypto_resp f) = Inr (Some c)
          \<longrightarrow> sections (fetch_phase repr f s) = (e_old, w_old, c_old)
              \<and> printed (fetch_phase repr f s) = printed s @ [x])
       \<and> (earthquakes_section repr (eq_resp f) = Inr (Some q)
          \<and> weather_section (weather_resp f) = Inl x
          \<and> crypto_section (crypto_resp f) = Inr (Some c)
          \<longrightarrow> sections (fetch_phase repr f s) = (Some q, w_old, c_old)
              \<and> printed (fetch_phase repr f s) = printed s @ [x])
       \<and> (earthquakes_section repr (eq_resp f) = Inr (Some q)
          \<and> weather_section (weather_resp f) = Inr (Some w)
          \<and> crypto_section (crypto_resp f) = Inl x
          \<longrightarrow> sections (fetch_phase repr f s) = (Some q, Some w, c_old)
              \<and> printed (fetch_phase repr f s) = printed s @ [x])"
proof -
  have kinds: "earthquakes_section repr ConnectFailed = Inl RequestError
          \<and> weather_section ConnectFailed = Inl RequestError
          \<and> crypto_section ConnectFailed = Inl RequestError
          \<and> earthquakes_section repr (Response 200 None) = Inl JSONDecodeError
          \<and> weather_section (Response 200 None) = Inl JSONDecodeError
          \<and> crypto_section (Response 200 None) = Inl JSONDecodeError"
    by (simp add: section_outcomes)
  have skipped: "status \<noteq> 200 \<longrightarrow>
            earthquakes_section repr (Response status body) = Inr None
            \<and> weather_section (Response status body) = Inr None
            \<and> crypto_section (Response status body) = Inr None"
    by (simp add: section_outcomes)
  have entered: "earthquakes_section repr (Response 200 body) \<noteq> Inr None
          \<and> weather_section (Response 200 body) \<noteq> Inr None
          \<and> crypto_section (Response 200 body) \<noteq> Inr None"
    by (simp add: section_outcomes)
  have gets: "(map_of eq_json ''features'' = None \<longrightarrow>
            earthquakes_section repr (Response 200 (Some (JObj eq_json))) = Inr (Some (JArr [])))
       \<and> (map_of c_json ''bpi'' = Some (JObj bpi) \<and> map_of bpi ''USD'' = Some (JObj usd_info)
          \<and> map_of usd_info ''rate'' = None \<longrightarrow>
            crypto_section (Response 200 (Some (JObj c_json)))
              = Inr (Some (JObj [(''BTC_USD'', JNull)])))"
    by (simp add: absent_get_fields)
  have one: "sections (fetch_phase repr f s) = (e_old, Some w, Some c)
              \<and> printed (fetch_phase repr f s) = printed s"
    if "eq_resp f = Response status body \<and> status \<noteq> 200
          \<and> weather_section (weather_resp f) = Inr (Some w)
          \<and> crypto_section (crypto_resp f) = Inr (Some c)"
    using that assms
    by (simp add: sections_def data_store_fetch_phase printed_fetch_phase try_block_def Let_def
        section_outcomes map_of_assign_same map_of_assign_none map_of_assign_other)
  have two: "sections (fetch_phase repr f s) = (Some q, w_old, Some c)
              \<and> printed (fetch_phase repr f s) = printed s"
    if "earthquakes_section repr (eq_resp f) = Inr (Some q)
          \<and> weather_resp f = Response status body \<and> status \<noteq> 200
          \<and> crypto_section (crypto_resp f) = Inr (Some c)"
    using that assms
    by (simp add: sections_def data_store_fetch_phase printed_fetch_phase try_block_def Let_def
        section_outcomes map_of_assign_same map_of_assign_none map_of_assign_other)
  have three: "sections (fetch_phase repr f s) = (Some q, Some w, c_old)
              \<and> printed (fetch_phase repr f s) = printed s"
    if "earthquakes_section repr (eq_resp f) = Inr (Some q)
          \<and> weather_section (weather_resp f) = Inr (Some w)
          \<and> crypto_resp f = Response status body \<and> status \<noteq> 200"
    using that assms
    by (simp add: sections_def data_store_fetch_phase printed_fetch_phase try_block_def Let_def
        section_outcomes map_of_assign_same map_of_assign_none map_of_assign_other)
  have raised: "(earthquakes_section repr (eq_resp f) = Inl x
          \<and> weather_section (weather_resp f) = Inr (Some w)
          \<and> crypto_section (crypto_resp f) = Inr (Some c)
          \<longrightarrow> sections (fetch_phase repr f s) = (e_old, w_old, c_old)
              \<and> printed (fetch_phase repr f s) = printed s @ [x])
       \<and> (earthquakes_section repr (eq_resp f) = Inr (Some q)
          \<and> weather_section (weather_resp f) = Inl x
          \<and> crypto_section (crypto_resp f) = Inr (Some c)
          \<longrightarrow> sections (fetch_phase repr f s) = (Some q, w_old, c_old)
              \<and> printed (fetch_phase repr f s) = printed s @ [x])
       \<and> (earthquakes_section repr (eq_resp f) = Inr (Some q)
          \<and> weather_section (weather_resp f) = Inr (Some w)
          \<and> crypto_section (crypto_resp f) = Inl x
          \<longrightarrow> sections (fetch_phase repr f s) = (Some q, Some w, c_old)
              \<and> printed (fetch_phase repr f s) = printed s @ [x])"
    using assms
    by (simp add: sections_def data_store_fetch_phase printed_fetch_phase try_block_def Let_def
        map_of_assign_same map_of_assign_none map_of_assign_other)
  from kinds skipped entered gets one two three raised show ?thesis by blast
qed

theorem one_feed_failure_amended_witness:
  "sections (fetch_phase sample_repr
      \<lparr>eq_resp = Response 503 None, weather_resp = sample_weather,
                crypto_resp = Response 200 (Some (JObj [(''bpi'', JObj [(''USD'', JObj [(''code'', JStr ''USD'')])])]))\<rparr>
      sys0)
     = (Some (JArr []), Some (JObj [(''temp_F'', JInt 72), (''description'', JStr ''Sunny'')]),
        Some (JObj [(''BTC_USD'', JNull)]))
   \<and> sections (fetch_phase sample_repr
      \<lparr>eq_resp = sample_eq, weather_resp = ConnectFailed, crypto_resp = sample_crypto\<rparr> sys0)
     = (Some (JArr [JStr ''M4.5 - 10km N of X'', JStr ''M2.1 - 5km S of Y'']), Some (JObj []),
        Some (JObj []))
   \<and> printed (fetch_phase sample_repr
      \<lparr>eq_resp = sample_eq, weather_resp = ConnectFailed, crypto_resp = sample_crypto\<rparr> sys0)
     = [RequestError]
   \<and> sections (fetch_phase sample_repr
      \<lparr>eq_resp = sample_eq, weather_resp = sample_weather, crypto_resp = Response 200 None\<rparr> sys0)
     = (Some (JArr [JStr ''M4.5 - 10km N of X'', JStr ''M2.1 - 5km S of Y'']),
        Some (JObj [(''temp_F'', JInt 72), (''description'', JStr ''Sunny'')]), Some (JObj []))
   \<and> printed (fetch_phase sample_repr
      \<lparr>eq_resp = sample_eq, weather_resp = sample_weather, crypto_resp = Response 200 None\<rparr> sys0)
     = [JSONDecodeError]
   \<and> sections (fetch_phase sample_repr
      \<lparr>eq_resp = Response 200 None, weather_resp = sample_weather, crypto_resp = sample_crypto\<rparr> sys0)
     = (Some (JArr []), Some (JObj []), Some (JObj []))
   \<and> printed (fetch_phase sample_repr
      \<lparr>eq_resp = Response 200 None, weather_resp = sample_weather, crypto_resp = sample_crypto\<rparr> sys0)
     = [JSONDecodeError]"
  using one_feed_failure_amended [where s = sys0 and repr = sample_repr
      and e_old = "Some (JArr [])" and w_old = "Some (JObj [])" and c_old = "Some (JObj [])"
      and eq_json = "[]" and c_json = "[(''bpi'', JObj [(''USD'', JObj [(''code'', JStr ''USD'')])])]"
      and bpi = "[(''USD'', JObj [(''code'', JStr ''USD'')])]" and usd_info = "[(''code'', JStr ''USD'')]"
      and status = 503 and body = None
      and f = "\<lparr>eq_resp = Response 503 None, weather_resp = sample_weather,
                crypto_resp = Response 200 (Some (JObj [(''bpi'', JObj [(''USD'', JObj [(''code'', JStr ''USD'')])])]))\<rparr>"
      and w = "JObj [(''temp_F'', JInt 72), (''description'', JStr ''Sunny'')]"
      and c = "JObj [(''BTC_USD'', JNull)]"
      and q = "JArr [JStr ''M4.5 - 10km N of X'', JStr ''M2.1 - 5km S of Y'']"
      and x = KeyError]
    one_feed_failure_amended [where s = sys0 and repr = sample_repr
      and e_old = "Some (JArr [])" and w_old = "Some (JObj [])" and c_old = "Some (JObj [])"
      and eq_json = "[]" and c_json = "[(''bpi'', JObj [(''USD'', JObj [(''code'', JStr ''USD'')])])]"
      and bpi = "[(''USD'', JObj [(''code'', JStr ''USD'')])]" and usd_info = "[(''code'', JStr ''USD'')]"
      and status = 503 and body = None
      and f = "\<lparr>eq_resp = sample_eq, weather_resp = ConnectFailed, crypto_resp = sample_crypto\<rparr>"
      and w = "JObj [(''temp_F'', JInt 72), (''description'', JStr ''Sunny'')]"
      and c = "JObj [(''BTC_USD'', JStr ''64,523.10'')]"
      and q = "JArr [JStr ''M4.5 - 10km N of X'', JStr ''M2.1 - 5km S of Y'']"
      and x = RequestError]
    one_feed_failure_amended [where s = sys0 and repr = sample_repr
      and e_old = "Some (JArr [])" and w_old = "Some (JObj [])" and c_old = "Some (JObj [])"
      and eq_json = "[]" and c_json = "[(''bpi'', JObj [(''USD'', JObj [(''code'', JStr ''USD'')])])]"
      and bpi = "[(''USD'', JObj [(''code'', JStr ''USD'')])]" and usd_info = "[(''code'', JStr ''USD'')]"
      and status = 503 and body = None
      and f = "\<lparr>eq_resp = sample_eq, weather_resp = sample_weather, crypto_resp = Response 200 None\<rparr>"
      and w = "JObj [(''temp_F'', JInt 72), (''description'', JStr ''Sunny'')]"
      and c = "JObj [(''BTC_USD'', JStr ''64,523.10'')]"
      and q = "JArr [JStr ''M4.5 - 10km N of X'', JStr ''M2.1 - 5km S of Y'']"
      and x = JSONDecodeError]
    one_feed_failure_amended [where s = sys0 and repr = sample_repr
      and e_old = "Some (JArr [])" and w_old = "Some (JObj [])" and c_old = "Some (JObj [])"
      and eq_json = "[]" and c_json = "[(''bpi'', JObj [(''USD'', JObj [(''code'', JStr ''USD'')])])]"
      and bpi = "[(''USD'', JObj [(''code'', JStr ''USD'')])]" and usd_info = "[(''code'', JStr ''USD'')]"
      and status = 503 and body = None
      and f = "\<lparr>eq_resp = Response 200 None, weather_resp = sample_weather, crypto_resp = sample_crypto\<rparr>"
      and w = "JObj [(''temp_F'', JInt 72), (''description'', JStr ''Sunny'')]"
      and c = "JObj [(''BTC_USD'', JStr ''64,523.10'')]"
      and q = "JArr [JStr ''M4.5 - 10km N of X'', JStr ''M2.1 - 5km S of Y'']"
      and x = JSONDecodeError]
  by (simp add: sections_def sample_defs earthquakes_section_def weather_section_def
      crypto_section_def quake_line_def subscript_key_def subscript_zero_def get_method_def
      get_default_def py_iter_def)

section \<open>Connection handlers and the broadcast phase\<close>

lemma websocket_endpoint_keeps:
  "data_store (websocket_endpoint e s) = data_store s"
  "sent (websocket_endpoint e s) = sent s"
  "printed (websocket_endpoint e s) = printed s"
  by (cases e; simp split: sum.splits)+

lemma handlers_keeps:
  "data_store (handlers es s) = data_store s"
  "sent (handlers es s) = sent s"
  "printed (handlers es s) = printed s"
  by (induction es arbitrary: s; simp add: websocket_endpoint_keeps)+

lemma member_websocket_endpoint:
  "h \<in> clients s \<Longrightarrow> e \<noteq> Disconnect h \<Longrightarrow> h \<in> clients (websocket_endpoint e s)"
  by (cases e) (auto simp: set_add_def set_remove_def split: sum.splits)

lemma member_handlers:
  "h \<in> clients s \<Longrightarrow> Disconnect h \<notin> set es \<Longrightarrow> h \<in> clients (handlers es s)"
  by (induction es arbitrary: s) (auto simp: member_websocket_endpoint)

lemma fetch_phase_keeps:
  "clients (fetch_phase repr f s) = clients s"
  "sent (fetch_phase repr f s) = sent s"
  "handler_errors (fetch_phase repr f s) = handler_errors s"
  "registry_ops (fetch_phase repr f s) = registry_ops s"
  by (simp_all add: fetch_phase_def split: prod.splits option.splits)

lemma fetch_phase_websocket_endpoint:
  "fetch_phase repr f (websocket_endpoint e s) = websocket_endpoint e (fetch_phase repr f s)"
  by (cases e) (simp_all add: fetch_phase_def split: prod.splits option.splits sum.splits)

lemma fetch_phase_handlers:
  "fetch_phase repr f (handlers es s) = handlers es (fetch_phase repr f s)"
  by (induction es arbitrary: s) (simp_all add: fetch_phase_websocket_endpoint)

text \<open>
  A broadcast in which no socket whose send raises is deregistered by its handler
  meanwhile runs to the end: every member of the copy is sent the store, in the order of
  the copy.
\<close>

lemma broadcast_completes:
  assumes "distinct ms"
    and "\<forall>w\<in>set ms. \<not> delivered (pe w) \<longrightarrow>
           w \<in> clients s \<and> (\<forall>v\<in>set ms. Disconnect w \<notin> set (during (pe v)))"
  shows "\<exists>s'. broadcast pe ms s = Inr s'
           \<and> sent s' = sent s @ map (\<lambda>w. (w, JObj (data_store s), delivered (pe w))) ms
           \<and> data_store s' = data_store s \<and> printed s' = printed s"
  using assms
proof (induction ms arbitrary: s)
  case Nil
  then show ?case by simp
next
  case (Cons w rest)
  define s1 where "s1 = handlers (during (pe w)) s"
  define s2 where "s2 = s1\<lparr>sent := sent s1 @ [(w, JObj (data_store s), delivered (pe w))]\<rparr>"
  have keep: "v \<in> clients s2" if "v \<in> set (w # rest)" "\<not> delivered (pe v)" for v
  proof -
    from Cons.prems(2) that have "v \<in> clients s" "Disconnect v \<notin> set (during (pe w))"
      by auto
    then show ?thesis by (simp add: s2_def s1_def member_handlers)
  qed
  have fields: "data_store s2 = data_store s" "printed s2 = printed s"
    "sent s2 = sent s @ [(w, JObj (data_store s), delivered (pe w))]"
    by (simp_all add: s2_def s1_def handlers_keeps)
  have step: "broadcast pe (w # rest) s =
      (if delivered (pe w) then broadcast pe rest s2
       else (case set_remove w (clients s2) of
               Inl e \<Rightarrow> Inl (e, s2)
             | Inr cl \<Rightarrow> broadcast pe rest
                 (s2\<lparr>clients := cl, registry_ops := registry_ops s2 @ [Remove w]\<rparr>)))"
    unfolding s2_def s1_def by (simp add: Let_def handlers_keeps)
  show ?case
  proof (cases "delivered (pe w)")
    case True
    have "\<exists>s'. broadcast pe rest s2 = Inr s'
           \<and> sent s' = sent s2 @ map (\<lambda>w. (w, JObj (data_store s2), delivered (pe w))) rest
           \<and> data_store s' = data_store s2 \<and> printed s' = printed s2"
    proof (rule Cons.IH)
      show "distinct rest" using Cons.prems(1) by simp
      show "\<forall>v\<in>set rest. \<not> delivered (pe v) \<longrightarrow>
              v \<in> clients s2 \<and> (\<forall>u\<in>set rest. Disconnect v \<notin> set (during (pe u)))"
        using Cons.prems(2) keep by auto
    qed
    with True show ?thesis
      by (simp add: step fields del: broadcast.simps)
  next
    case False
    define s3 where "s3 = s2\<lparr>clients := clients s2 - {w}, registry_ops := registry_ops s2 @ [Remove w]\<rparr>"
    have win: "w \<in> clients s2" using keep [of w] False by simp
    have "\<exists>s'. broadcast pe rest s3 = Inr s'
           \<and> sent s' = sent s3 @ map (\<lambda>w. (w, JObj (data_store s3), delivered (pe w))) rest
           \<and> data_store s' = data_store s3 \<and> printed s' = printed s3"
    proof (rule Cons.IH)
      show "distinct rest" using Cons.prems(1) by simp
      show "\<forall>v\<in>set rest. \<not> delivered (pe v) \<longrightarrow>
              v \<in> clients s3 \<and> (\<forall>u\<in>set rest. Disconnect v \<notin> set (during (pe u)))"
      proof (intro ballI impI)
        fix v assume v: "v \<in> set rest" "\<not> delivered (pe v)"
        then have "v \<noteq> w" using Cons.prems(1) by auto
        moreover have "v \<in> clients s2" using keep [of v] v by simp
        ultimately have "v \<in> clients s3" by (simp add: s3_def)
        moreover have "\<forall>u\<in>set rest. Disconnect v \<notin> set (during (pe u))"
          using Cons.prems(2) v by auto
        ultimately show "v \<in> clients s3 \<and> (\<forall>u\<in>set rest. Disconnect v \<notin> set (during (pe u)))"
          by simp
      qed
    qed
    moreover have "data_store s3 = data_store s" "printed s3 = printed s" "sent s3 = sent s2"
      by (simp_all add: s3_def fields)
    moreover have "broadcast pe (w # rest) s = broadcast pe rest s3"
      using False win by (simp add: step set_remove_def s3_def del: broadcast.simps)
    ultimately show ?thesis using False
      by (simp add: fields del: broadcast.simps)
  qed
qed

text \<open>In every case the sends of a broadcast are an initial part of the copy, each with the
  store as payload.\<close>

lemma broadcast_sends_prefix:
  "\<exists>n\<le>length ms. sent (final (broadcast pe ms s))
       = sent s @ map (\<lambda>w. (w, JObj (data_store s), delivered (pe w))) (take n ms)"
proof (induction ms arbitrary: s)
  case Nil
  then show ?case by simp
next
  case (Cons w rest)
  define s2 where "s2 = (handlers (during (pe w)) s)
      \<lparr>sent := sent (handlers (during (pe w)) s) @ [(w, JObj (data_store s), delivered (pe w))]\<rparr>"
  define s3 where "s3 = s2\<lparr>clients := clients s2 - {w}, registry_ops := registry_ops s2 @ [Remove w]\<rparr>"
  have fields: "data_store s2 = data_store s" "data_store s3 = data_store s"
    "sent s2 = sent s @ [(w, JObj (data_store s), delivered (pe w))]" "sent s3 = sent s2"
    by (simp_all add: s3_def s2_def handlers_keeps)
  have step: "broadcast pe (w # rest) s =
      (if delivered (pe w) then broadcast pe rest s2
       else if w \<in> clients s2 then broadcast pe rest s3 else Inl (KeyError, s2))"
    unfolding s3_def s2_def by (simp add: Let_def set_remove_def)
  have via: ?case if "broadcast pe (w # rest) s = broadcast pe rest t" "t = s2 \<or> t = s3" for t
  proof -
    from Cons.IH [of t] obtain n where n: "n \<le> length rest"
      "sent (final (broadcast pe rest t))
         = sent t @ map (\<lambda>w. (w, JObj (data_store t), delivered (pe w))) (take n rest)"
      by blast
    from that(2) have "data_store t = data_store s"
      "sent t = sent s @ [(w, JObj (data_store s), delivered (pe w))]"
      using fields by auto
    with n that(1) show ?thesis
      by (intro exI [of _ "Suc n"]) (simp del: broadcast.simps)
  qed
  show ?case
  proof (cases "delivered (pe w) \<or> w \<in> clients s2")
    case True
    then have "broadcast pe (w # rest) s = broadcast pe rest s2
             \<or> broadcast pe (w # rest) s = broadcast pe rest s3"
      by (auto simp: step simp del: broadcast.simps)
    then show ?thesis using via by blast
  next
    case False
    then have "broadcast pe (w # rest) s = Inl (KeyError, s2)"
      by (simp add: step del: broadcast.simps)
    then show ?thesis
      by (intro exI [of _ "Suc 0"]) (simp add: fields del: broadcast.simps)
  qed
qed

lemma broadcast_keeps:
  "data_store (final (broadcast pe ms s)) = data_store s
   \<and> printed (final (broadcast pe ms s)) = printed s"
proof (induction ms arbitrary: s)
  case Nil
  then show ?case by simp
next
  case (Cons w rest)
  define s2 where "s2 = (handlers (during (pe w)) s)
      \<lparr>sent := sent (handlers (during (pe w)) s) @ [(w, JObj (data_store s), delivered (pe w))]\<rparr>"
  define s3 where "s3 = s2\<lparr>clients := clients s2 - {w}, registry_ops := registry_ops s2 @ [Remove w]\<rparr>"
  have step: "broadcast pe (w # rest) s =
      (if delivered (pe w) then broadcast pe rest s2
       else if w \<in> clients s2 then broadcast pe rest s3 else Inl (KeyError, s2))"
    unfolding s3_def s2_def by (simp add: Let_def set_remove_def)
  have "data_store s2 = data_store s" "data_store s3 = data_store s"
    "printed s2 = printed s" "printed s3 = printed s"
    by (simp_all add: s3_def s2_def handlers_keeps)
  with Cons.IH [of s2] Cons.IH [of s3] show ?case
    by (simp add: step del: broadcast.simps)
qed

lemma absent_websocket_endpoint:
  "a \<notin> clients s \<Longrightarrow> e \<noteq> Accept a \<Longrightarrow> a \<notin> clients (websocket_endpoint e s)"
  by (cases e) (auto simp: set_add_def set_remove_def split: sum.splits)

lemma absent_handlers:
  "a \<notin> clients s \<Longrightarrow> Accept a \<notin> set es \<Longrightarrow> a \<notin> clients (handlers es s)"
  by (induction es arbitrary: s) (auto simp: absent_websocket_endpoint)

lemma broadcast_unfold:
  "broadcast pe (w # rest) s =
     (if delivered (pe w)
      then broadcast pe rest
             ((handlers (during (pe w)) s)
                \<lparr>sent := sent s @ [(w, JObj (data_store s), True)]\<rparr>)
      else if w \<in> clients (handlers (during (pe w)) s)
      then broadcast pe rest
             ((handlers (during (pe w)) s)
                \<lparr>sent := sent s @ [(w, JObj (data_store s), False)],
                  clients := clients (handlers (during (pe w)) s) - {w},
                  registry_ops := registry_ops (handlers (during (pe w)) s) @ [Remove w]\<rparr>)
      else Inl (KeyError, (handlers (during (pe w)) s)
                \<lparr>sent := sent s @ [(w, JObj (data_store s), False)]\<rparr>))"
  by (simp add: Let_def set_remove_def handlers_keeps)

lemma absent_broadcast:
  "a \<notin> clients s \<Longrightarrow> \<forall>v\<in>set ms. Accept a \<notin> set (during (pe v)) \<Longrightarrow>
   a \<notin> clients (final (broadcast pe ms s))"
proof (induction ms arbitrary: s)
  case Nil
  then show ?case by simp
next
  case (Cons w rest)
  have "a \<notin> clients (handlers (during (pe w)) s)"
    using Cons.prems by (simp add: absent_handlers)
  then show ?case
    using Cons.prems(2) by (simp add: broadcast_unfold Cons.IH del: broadcast.simps)
qed

lemma failing_client_removed:
  assumes "a \<in> set ms" and "\<forall>w\<in>set ms. delivered (pe w) = (w \<noteq> a)"
    and "\<forall>v\<in>set ms. Accept a \<notin> set (during (pe v))"
  shows "a \<notin> clients (final (broadcast pe ms s))"
  using assms
proof (induction ms arbitrary: s)
  case Nil
  then show ?case by simp
next
  case (Cons w rest)
  show ?case
  proof (cases "w = a")
    case True
    then have "\<not> delivered (pe w)" using Cons.prems(2) by simp
    moreover have "\<forall>v\<in>set rest. Accept a \<notin> set (during (pe v))"
      using Cons.prems(3) by simp
    ultimately show ?thesis
      using True by (simp add: broadcast_unfold absent_broadcast del: broadcast.simps)
  next
    case False
    then have "delivered (pe w)" "a \<in> set rest" using Cons.prems by auto
    then show ?thesis
      using Cons.prems by (simp add: broadcast_unfold Cons.IH del: broadcast.simps)
  qed
qed

text \<open>
  When the send to exactly one member \<open>a\<close> of the copy raises and no handler deregisters
  or registers \<open>a\<close> meanwhile, the broadcast runs to its end, every member is sent the
  store, and \<open>a\<close> is no longer in the registry afterwards.
\<close>

lemma push_failure_isolated:
  assumes "is_copy ms (clients s)" and "a \<in> set ms"
    and "\<forall>w\<in>set ms. delivered (pe w) = (w \<noteq> a)"
    and "\<forall>v\<in>set ms. Disconnect a \<notin> set (during (pe v)) \<and> Accept a \<notin> set (during (pe v))"
  shows "\<exists>s'. broadcast pe ms s = Inr s'
           \<and> sent s' = sent s @ map (\<lambda>w. (w, JObj (data_store s), w \<noteq> a)) ms
           \<and> a \<notin> clients s'"
proof -
  have "\<exists>s'. broadcast pe ms s = Inr s'
           \<and> sent s' = sent s @ map (\<lambda>w. (w, JObj (data_store s), delivered (pe w))) ms
           \<and> data_store s' = data_store s \<and> printed s' = printed s"
  proof (rule broadcast_completes)
    show "distinct ms" using assms(1) by (simp add: is_copy_def)
    show "\<forall>w\<in>set ms. \<not> delivered (pe w) \<longrightarrow>
            w \<in> clients s \<and> (\<forall>v\<in>set ms. Disconnect w \<notin> set (during (pe v)))"
      using assms by (auto simp: is_copy_def)
  qed
  then obtain s' where s': "broadcast pe ms s = Inr s'"
    "sent s' = sent s @ map (\<lambda>w. (w, JObj (data_store s), delivered (pe w))) ms"
    by blast
  have "map (\<lambda>w. (w, JObj (data_store s), delivered (pe w))) ms
          = map (\<lambda>w. (w, JObj (data_store s), w \<noteq> a)) ms"
    using assms(3) by simp
  moreover have "a \<notin> clients (final (broadcast pe ms s))"
    using assms by (intro failing_client_removed) auto
  ultimately show ?thesis using s' by simp
qed

text \<open>
  Claim C2. Removing a handle that is not in the registry is a no-op and raises nothing,
  on the prune path of the broadcast loop and on the disconnect path of the handler.
  The code uses \<open>set.remove\<close>, which raises KeyError for an absent element. On the prune
  path: client 1 is registered, its socket closes while the send to it is pending, its
  handler removes it, the send raises and \<open>clients.remove\<close> raises KeyError. On the
  disconnect path (\<open>cycle_prune\<close>): the send to client 1 raises, the loop prunes it, and
  when its handler sees the disconnect \<open>clients.remove\<close> raises KeyError there.
\<close>

theorem remove_absent_raises:
  "set_remove 1 {} = Inl KeyError
   \<and> is_copy [1] (clients (handlers [Accept 1] sys0))
   \<and> isl (broadcast (closing 1) [1] (handlers [Accept 1] sys0))
   \<and> fst (projl (broadcast (closing 1) [1] (handlers [Accept 1] sys0))) = KeyError
   \<and> is_copy (members cycle_prune) (clients (handlers (before cycle_prune) sys0))
   \<and> handler_errors (final (fetch_feeds sample_repr [cycle_prune] sys0)) = [(1, KeyError)]"
  by (auto simp: sample_defs code_defs is_copy_def)

text \<open>
  Claim C3. No exception leaves the fetch or the broadcast phase of the loop, whatever
  feed and push failures occur, also when the push fails to a client its own handler has
  deregistered meanwhile. In the run below the weather feed answers 503 (no exception),
  the socket of client 1 closes during the send to it, and the KeyError of
  \<open>clients.remove\<close> leaves the loop: client 2 of the same cycle is never sent to, and the
  second cycle does not happen.
\<close>

theorem loop_ended_by_keyerror:
  "is_copy (members cycle_race) (clients (handlers (before cycle_race) sys0))
   \<and> isl (fetch_feeds sample_repr [cycle_race, cycle_next] sys0)
   \<and> fst (projl (fetch_feeds sample_repr [cycle_race, cycle_next] sys0)) = KeyError
   \<and> map target (sent (final (fetch_feeds sample_repr [cycle_race, cycle_next] sys0)))
       = [(1, False)]"
  by (auto simp: sample_defs code_defs is_copy_def)

text \<open>
  Claim C4. When the push to one client fails, every other client of the cycle's copy is
  still pushed the snapshot, and the failing client is removed. With the copy \<open>[1, 2]\<close>
  and the socket of client 1 closing during the send to it, the cycle ends with a KeyError
  after the send to 1, and client 2 receives nothing. The last line is the same cycle with
  the handler of client 1 not yet run: there client 2 is sent to.
\<close>

theorem push_failure_ends_broadcast:
  "is_copy (members cycle_race) (clients (handlers (before cycle_race) sys0))
   \<and> isl (cycle sample_repr cycle_race sys0)
   \<and> map target (sent (final (cycle sample_repr cycle_race sys0))) = [(1, False)]
   \<and> clients (final (cycle sample_repr cycle_race sys0)) = {2}
   \<and> map target (sent (final (cycle sample_repr (cycle_race\<lparr>pushes := failing 1\<rparr>) sys0)))
       = [(1, False), (2, True)]"
  by (auto simp: sample_defs code_defs is_copy_def)

section \<open>Fetch failures and the broadcast\<close>

lemma same_pushes_websocket_endpoint:
  "same_pushes s t \<Longrightarrow> same_pushes (websocket_endpoint e s) (websocket_endpoint e t)"
  by (cases e) (auto simp: same_pushes_def set_remove_def split: sum.splits)

lemma same_pushes_handlers:
  "same_pushes s t \<Longrightarrow> same_pushes (handlers es s) (handlers es t)"
  by (induction es arbitrary: s t) (simp_all add: same_pushes_websocket_endpoint)

lemma same_pushes_broadcast:
  "same_pushes s t \<Longrightarrow>
     isl (broadcast pe ms s) = isl (broadcast pe ms t)
     \<and> same_pushes (final (broadcast pe ms s)) (final (broadcast pe ms t))"
proof (induction ms arbitrary: s t)
  case Nil
  then show ?case by simp
next
  case (Cons w rest)
  define s1 where "s1 = handlers (during (pe w)) s"
  define t1 where "t1 = handlers (during (pe w)) t"
  define s2 where "s2 = s1\<lparr>sent := sent s1 @ [(w, JObj (data_store s), delivered (pe w))]\<rparr>"
  define t2 where "t2 = t1\<lparr>sent := sent t1 @ [(w, JObj (data_store t), delivered (pe w))]\<rparr>"
  define s3 where "s3 = s2\<lparr>clients := clients s2 - {w}, registry_ops := registry_ops s2 @ [Remove w]\<rparr>"
  define t3 where "t3 = t2\<lparr>clients := clients t2 - {w}, registry_ops := registry_ops t2 @ [Remove w]\<rparr>"
  have "same_pushes s1 t1"
    unfolding s1_def t1_def using Cons.prems by (rule same_pushes_handlers)
  then have two: "same_pushes s2 t2" and three: "same_pushes s3 t3"
    by (simp_all add: same_pushes_def s2_def t2_def s3_def t3_def)
  have cl: "clients s2 = clients t2" using two by (simp add: same_pushes_def)
  have step_s: "broadcast pe (w # rest) s =
      (if delivered (pe w) then broadcast pe rest s2
       else if w \<in> clients s2 then broadcast pe rest s3 else Inl (KeyError, s2))"
    unfolding s3_def s2_def s1_def by (simp add: Let_def set_remove_def)
  have step_t: "broadcast pe (w # rest) t =
      (if delivered (pe w) then broadcast pe rest t2
       else if w \<in> clients t2 then broadcast pe rest t3 else Inl (KeyError, t2))"
    unfolding t3_def t2_def t1_def by (simp add: Let_def set_remove_def)
  show ?case
    using Cons.IH [OF two] Cons.IH [OF three] two
    by (simp add: step_s step_t cl del: broadcast.simps)
qed

lemma same_pushes_cycle:
  "isl (cycle repr c s) = isl (cycle repr (c\<lparr>responses := f'\<rparr>) s)
   \<and> same_pushes (final (cycle repr c s)) (final (cycle repr (c\<lparr>responses := f'\<rparr>) s))"
proof -
  define u where "u = handlers (before c) s"
  have start: "same_pushes (fetch_phase repr (responses c) u) (fetch_phase repr f' u)"
    by (simp add: same_pushes_def fetch_phase_keeps)
  from same_pushes_broadcast [OF start, of "pushes c" "members c"]
  have b: "isl (broadcast (pushes c) (members c) (fetch_phase repr (responses c) u))
         = isl (broadcast (pushes c) (members c) (fetch_phase repr f' u))"
    and f: "same_pushes (final (broadcast (pushes c) (members c) (fetch_phase repr (responses c) u)))
         (final (broadcast (pushes c) (members c) (fetch_phase repr f' u)))"
    by simp_all
  show ?thesis
  proof (cases "broadcast (pushes c) (members c) (fetch_phase repr (responses c) u)")
    case (Inl x)
    with b obtain y where y: "broadcast (pushes c) (members c) (fetch_phase repr f' u) = Inl y"
      by (cases "broadcast (pushes c) (members c) (fetch_phase repr f' u)") auto
    with Inl f show ?thesis
      by (cases x; cases y) (simp add: cycle_def u_def)
  next
    case (Inr a)
    with b obtain a' where a': "broadcast (pushes c) (members c) (fetch_phase repr f' u) = Inr a'"
      by (cases "broadcast (pushes c) (members c) (fetch_phase repr f' u)") auto
    with Inr f show ?thesis
      by (simp add: cycle_def u_def same_pushes_handlers)
  qed
qed

text \<open>
  Whether the broadcast phase of a cycle runs to its end, which sockets it sends to with
  which outcome, and what it does to the registry do not depend on the feed responses:
  they are the same for any other responses \<open>f'\<close>. And whatever the responses, in a cycle
  in which no socket whose send raises is deregistered by its handler meanwhile, every
  member of the copy is sent the store as the fetch phase left it.
\<close>

lemma broadcast_unaffected_by_feeds:
  "(isl (cycle repr c s) = isl (cycle repr (c\<lparr>responses := f'\<rparr>) s)
    \<and> same_pushes (final (cycle repr c s)) (final (cycle repr (c\<lparr>responses := f'\<rparr>) s)))
   \<and> (is_copy (members c) (clients (handlers (before c) s))
      \<and> (\<forall>w\<in>set (members c). \<not> delivered (pushes c w) \<longrightarrow>
            (\<forall>v\<in>set (members c). Disconnect w \<notin> set (during (pushes c v))))
      \<longrightarrow> (\<exists>s'. cycle repr c s = Inr s'
             \<and> sent s' = sent s @
                 map (\<lambda>w. (w, JObj (data_store (fetch_phase repr (responses c) s)),
                            delivered (pushes c w))) (members c)))"
proof (intro conjI impI)
  show "isl (cycle repr c s) = isl (cycle repr (c\<lparr>responses := f'\<rparr>) s)"
    and "same_pushes (final (cycle repr c s)) (final (cycle repr (c\<lparr>responses := f'\<rparr>) s))"
    using same_pushes_cycle [of repr c s f'] by simp_all
next
  assume h: "is_copy (members c) (clients (handlers (before c) s))
      \<and> (\<forall>w\<in>set (members c). \<not> delivered (pushes c w) \<longrightarrow>
            (\<forall>v\<in>set (members c). Disconnect w \<notin> set (during (pushes c v))))"
  define u where "u = fetch_phase repr (responses c) (handlers (before c) s)"
  have "\<exists>s'. broadcast (pushes c) (members c) u = Inr s'
           \<and> sent s' = sent u @ map (\<lambda>w. (w, JObj (data_store u), delivered (pushes c w))) (members c)
           \<and> data_store s' = data_store u \<and> printed s' = printed u"
  proof (rule broadcast_completes)
    show "distinct (members c)" using h by (simp add: is_copy_def)
    show "\<forall>w\<in>set (members c). \<not> delivered (pushes c w) \<longrightarrow>
           w \<in> clients u \<and> (\<forall>v\<in>set (members c). Disconnect w \<notin> set (during (pushes c v)))"
      using h by (simp add: is_copy_def u_def fetch_phase_keeps)
  qed
  then obtain s' where s': "broadcast (pushes c) (members c) u = Inr s'"
    "sent s' = sent u @ map (\<lambda>w. (w, JObj (data_store u), delivered (pushes c w))) (members c)"
    by blast
  have "data_store u = data_store (fetch_phase repr (responses c) s)"
    by (simp add: u_def data_store_fetch_phase handlers_keeps)
  moreover have "sent u = sent s"
    by (simp add: u_def fetch_phase_keeps handlers_keeps)
  ultimately show "\<exists>s'. cycle repr c s = Inr s'
             \<and> sent s' = sent s @
                 map (\<lambda>w. (w, JObj (data_store (fetch_phase repr (responses c) s)),
                            delivered (pushes c w))) (members c)"
    using s' by (simp add: cycle_def handlers_keeps flip: u_def)
qed

text \<open>
  Claim C5. Whatever feeds fail, the loop goes on to push the store to every member of
  the cycle's copy. The fetch never skips the broadcast, but the broadcast does not
  reach every member. In \<open>cycle_down_race\<close> the three requests fail, the exception is
  caught and printed, the store is the stale initial one, and the copy is \<open>[1, 2]\<close>; the
  socket of client 1 closes during the send to it, \<open>clients.remove\<close> raises KeyError, and
  member 2 is never sent the store. The last line is the same cycle with the handler of
  client 1 not yet run: there both members are sent the stale store.
\<close>

theorem broadcast_cut_short_after_failed_fetch:
  "is_copy (members cycle_down_race) (clients (handlers (before cycle_down_race) sys0))
   \<and> printed (final (cycle sample_repr cycle_down_race sys0)) = [RequestError]
   \<and> data_store (final (cycle sample_repr cycle_down_race sys0)) = data_store0
   \<and> isl (cycle sample_repr cycle_down_race sys0)
   \<and> fst (projl (cycle sample_repr cycle_down_race sys0)) = KeyError
   \<and> sent (final (cycle sample_repr cycle_down_race sys0)) = [(1, JObj data_store0, False)]
   \<and> sent (final (cycle sample_repr (cycle_down_race\<lparr>pushes := failing 1\<rparr>) sys0))
       = [(1, JObj data_store0, False), (2, JObj data_store0, True)]"
  by (auto simp: sample_defs code_defs is_copy_def)

section \<open>The registry and its copy\<close>

lemma last_op_snoc:
  "last_op h (xs @ [x]) =
     (if x = Add h then Some True else if x = Remove h then Some False else last_op h xs)"
  by (induction xs) (auto split: option.splits)

lemma registry_websocket_endpoint:
  assumes "clients s = {h. last_op h (registry_ops s) = Some True}"
  shows "clients (websocket_endpoint e s)
           = {h. last_op h (registry_ops (websocket_endpoint e s)) = Some True}"
  using assms by (cases e) (auto simp: set_add_def set_remove_def last_op_snoc split: sum.splits)

lemma registry_handlers:
  "clients s = {h. last_op h (registry_ops s) = Some True} \<Longrightarrow>
   clients (handlers es s) = {h. last_op h (registry_ops (handlers es s)) = Some True}"
  by (induction es arbitrary: s) (simp_all add: registry_websocket_endpoint)

lemma registry_broadcast:
  "clients s = {h. last_op h (registry_ops s) = Some True} \<Longrightarrow>
   clients (final (broadcast pe ms s))
     = {h. last_op h (registry_ops (final (broadcast pe ms s))) = Some True}"
proof (induction ms arbitrary: s)
  case Nil
  then show ?case by simp
next
  case (Cons w rest)
  define s1 where "s1 = handlers (during (pe w)) s"
  define s2 where "s2 = s1\<lparr>sent := sent s1 @ [(w, JObj (data_store s), delivered (pe w))]\<rparr>"
  define s3 where "s3 = s2\<lparr>clients := clients s2 - {w}, registry_ops := registry_ops s2 @ [Remove w]\<rparr>"
  have step: "broadcast pe (w # rest) s =
      (if delivered (pe w) then broadcast pe rest s2
       else if w \<in> clients s2 then broadcast pe rest s3 else Inl (KeyError, s2))"
    unfolding s3_def s2_def s1_def by (simp add: Let_def set_remove_def)
  have "clients s1 = {h. last_op h (registry_ops s1) = Some True}"
    unfolding s1_def using Cons.prems by (rule registry_handlers)
  then have two: "clients s2 = {h. last_op h (registry_ops s2) = Some True}"
    by (simp add: s2_def)
  then have three: "clients s3 = {h. last_op h (registry_ops s3) = Some True}"
    by (auto simp: s3_def last_op_snoc)
  show ?case
    using Cons.IH [OF two] Cons.IH [OF three] two
    by (simp add: step del: broadcast.simps)
qed

lemma registry_cycle:
  assumes "clients s = {h. last_op h (registry_ops s) = Some True}"
  shows "clients (final (cycle repr c s))
           = {h. last_op h (registry_ops (final (cycle repr c s))) = Some True}"
proof -
  define u where "u = fetch_phase repr (responses c) (handlers (before c) s)"
  have "clients u = {h. last_op h (registry_ops u) = Some True}"
    using registry_handlers [OF assms, of "before c"] by (simp add: u_def fetch_phase_keeps)
  then have b: "clients (final (broadcast (pushes c) (members c) u))
      = {h. last_op h (registry_ops (final (broadcast (pushes c) (members c) u))) = Some True}"
    by (rule registry_broadcast)
  show ?thesis
  proof (cases "broadcast (pushes c) (members c) u")
    case (Inl x)
    with b show ?thesis by (cases x) (simp add: cycle_def flip: u_def)
  next
    case (Inr a)
    with b show ?thesis by (simp add: cycle_def registry_handlers flip: u_def)
  qed
qed

lemma registry_fetch_feeds:
  "clients s = {h. last_op h (registry_ops s) = Some True} \<Longrightarrow>
   clients (final (fetch_feeds repr cs s))
     = {h. last_op h (registry_ops (final (fetch_feeds repr cs s))) = Some True}"
proof (induction cs arbitrary: s)
  case Nil
  then show ?case by simp
next
  case (Cons c cs)
  from registry_cycle [OF Cons.prems, of repr c]
  have c: "clients (final (cycle repr c s))
           = {h. last_op h (registry_ops (final (cycle repr c s))) = Some True}" .
  show ?case
  proof (cases "cycle repr c s")
    case (Inl x)
    with c show ?thesis by (cases x) simp
  next
    case (Inr a)
    with c Cons.IH [of a] show ?thesis by simp
  qed
qed

text \<open>
  After any run of cycles from the initial state and any handler steps, the copy taken for
  the broadcast holds exactly the handles whose most recent completed registry operation
  is an add: it omits no handle that was added and not removed since, and includes no
  handle that was removed and not added again. The copy is traversed to its end while the
  handlers change the registry, provided no socket whose send raises is deregistered by
  its handler meanwhile.
\<close>

lemma copy_matches_registry_log:
  assumes "fetch_feeds repr cs sys0 = Inr s"
    and "is_copy ms (clients (handlers es s))"
  shows "(\<forall>h. (h \<in> set ms) = (last_op h (registry_ops (handlers es s)) = Some True))
       \<and> (\<forall>pe :: handle \<Rightarrow> push_env. (\<forall>w\<in>set ms. \<not> delivered (pe w) \<longrightarrow>
                   (\<forall>v\<in>set ms. Disconnect w \<notin> set (during (pe v))))
              \<longrightarrow> (\<exists>s'. broadcast pe ms (fetch_phase repr f (handlers es s)) = Inr s'
                     \<and> map fst (sent s') = map fst (sent s) @ ms))"
proof (intro conjI allI impI)
  have "clients sys0 = {h. last_op h (registry_ops sys0) = Some True}"
    by (simp add: sys0_def)
  from registry_fetch_feeds [OF this, of repr cs] assms(1)
  have "clients s = {h. last_op h (registry_ops s) = Some True}" by simp
  from registry_handlers [OF this, of es] assms(2)
  show "(h \<in> set ms) = (last_op h (registry_ops (handlers es s)) = Some True)" for h
    by (auto simp: is_copy_def)
next
  fix pe :: "handle \<Rightarrow> push_env"
  assume quiet: "\<forall>w\<in>set ms. \<not> delivered (pe w) \<longrightarrow>
                   (\<forall>v\<in>set ms. Disconnect w \<notin> set (during (pe v)))"
  define u where "u = fetch_phase repr f (handlers es s)"
  have "\<exists>s'. broadcast pe ms u = Inr s'
           \<and> sent s' = sent u @ map (\<lambda>w. (w, JObj (data_store u), delivered (pe w))) ms
           \<and> data_store s' = data_store u \<and> printed s' = printed u"
  proof (rule broadcast_completes)
    show "distinct ms" using assms(2) by (simp add: is_copy_def)
    show "\<forall>w\<in>set ms. \<not> delivered (pe w) \<longrightarrow>
            w \<in> clients u \<and> (\<forall>v\<in>set ms. Disconnect w \<notin> set (during (pe v)))"
      using assms(2) quiet by (simp add: is_copy_def u_def fetch_phase_keeps)
  qed
  then obtain s' where "broadcast pe ms u = Inr s'"
    "sent s' = sent u @ map (\<lambda>w. (w, JObj (data_store u), delivered (pe w))) ms"
    by blast
  moreover have "sent u = sent s" by (simp add: u_def fetch_phase_keeps handlers_keeps)
  ultimately show "\<exists>s'. broadcast pe ms u = Inr s' \<and> map fst (sent s') = map fst (sent s) @ ms"
    by (simp add: comp_def)
qed

text \<open>
  Claim C8. The copy taken for the broadcast holds the handles added and not removed
  before, and it can be traversed without error while the registry is changed by the
  handlers. The first half holds (the lemma above). The traversal does not survive every
  change: with the correct copy \<open>[1, 2, 3]\<close>, client 2 is deregistered by its handler and
  client 4 registered while the send to 1 is pending; the send to 2 then raises,
  \<open>clients.remove\<close> raises KeyError, and the loop over the copy ends before member 3. The
  last line is the same copy with no change of the registry: all three are visited.
\<close>

theorem traversal_ended_by_registry_change:
  "is_copy [1, 2, 3] (clients (handlers [Accept 1, Accept 2, Accept 3] sys0))
   \<and> isl (broadcast mutating [1, 2, 3] (handlers [Accept 1, Accept 2, Accept 3] sys0))
   \<and> fst (projl (broadcast mutating [1, 2, 3] (handlers [Accept 1, Accept 2, Accept 3] sys0)))
       = KeyError
   \<and> map target (sent (final
         (broadcast mutating [1, 2, 3] (handlers [Accept 1, Accept 2, Accept 3] sys0))))
       = [(1, True), (2, False)]
   \<and> registry_ops (final
         (broadcast mutating [1, 2, 3] (handlers [Accept 1, Accept 2, Accept 3] sys0)))
       = [Add 1, Add 2, Add 3, Remove 2, Add 4]
   \<and> map target (sent (final
         (broadcast all_delivered [1, 2, 3] (handlers [Accept 1, Accept 2, Accept 3] sys0))))
       = [(1, True), (2, True), (3, True)]"
  by (auto simp: sample_defs code_defs is_copy_def)

section \<open>Inbound payloads\<close>

lemma websocket_endpoint_text: "text_of h e \<Longrightarrow> websocket_endpoint e s = s"
  by (cases "(h, e)" rule: text_of.cases) (simp_all add: receive_text_def)

lemma handlers_silent: "handlers (silent h es) s = handlers es s"
proof (induction es arbitrary: s)
  case Nil
  then show ?case by (simp add: silent_def)
next
  case (Cons e es)
  then show ?case
    by (cases "text_of h e") (simp_all add: silent_def websocket_endpoint_text)
qed

lemma broadcast_silent:
  "broadcast (\<lambda>w. (pe w)\<lparr>during := silent h (during (pe w))\<rparr>) ms s = broadcast pe ms s"
  by (induction ms arbitrary: s) (simp_all add: handlers_silent Let_def split: sum.splits)

lemma cycle_silent: "cycle repr (silent_cycle h c) s = cycle repr c s"
  by (simp add: cycle_def silent_cycle_def handlers_silent broadcast_silent split: sum.splits)

text \<open>The text frames a client sends change nothing: a run from which they are erased
  ends in the same state, over any number of cycles.\<close>

lemma text_frames_ignored:
  "fetch_feeds repr (map (silent_cycle h) cs) s = fetch_feeds repr cs s
   \<and> handlers (silent h es) s = handlers es s
   \<and> websocket_endpoint (Receive h (TextFrame txt)) s = s"
proof -
  have "fetch_feeds repr (map (silent_cycle h) cs) s = fetch_feeds repr cs s"
    by (induction cs arbitrary: s) (simp_all add: cycle_silent split: sum.splits)
  then show ?thesis by (simp add: handlers_silent receive_text_def)
qed

text \<open>
  Claim C9. Whatever a client sends, the store, the pushes and the registry are those of
  the run in which it sends nothing. This holds for text frames (the lemma above) and
  fails for a binary frame: \<open>receive_text()\<close> raises KeyError, which the handler does not
  catch, so the handler of client 1 ends without \<open>clients.remove\<close> and the socket stays
  in the registry. The server closes the connection of a handler that has ended, so in
  \<open>cycle_binary\<close> the send to client 1 raises and the loop prunes it, where in
  \<open>cycle_quiet\<close>, the same cycle with client 1 sending nothing, it is sent the store and
  stays registered. The last two lines compare the two runs with every send delivered in
  both: the handler of client 1 has ended with KeyError in one and is running in the
  other.
\<close>

theorem binary_frame_ends_handler:
  "receive_text (BytesFrame ''ping'') = Inl KeyError
   \<and> handler_errors (handlers [Accept 1, Receive 1 (BytesFrame ''ping'')] sys0) = [(1, KeyError)]
   \<and> clients (handlers [Accept 1, Receive 1 (BytesFrame ''ping'')] sys0) = {1}
   \<and> handler_errors (handlers [Accept 1] sys0) = []
   \<and> is_copy (members cycle_binary) (clients (handlers (before cycle_binary) sys0))
   \<and> is_copy (members cycle_quiet) (clients (handlers (before cycle_quiet) sys0))
   \<and> map target (sent (final (cycle sample_repr cycle_binary sys0))) = [(1, False), (2, True)]
   \<and> clients (final (cycle sample_repr cycle_binary sys0)) = {2}
   \<and> map target (sent (final (cycle sample_repr cycle_quiet sys0))) = [(1, True), (2, True)]
   \<and> clients (final (cycle sample_repr cycle_quiet sys0)) = {1, 2}
   \<and> handler_errors (final (cycle sample_repr (cycle_binary\<lparr>pushes := all_delivered\<rparr>) sys0))
       = [(1, KeyError)]
   \<and> handler_errors (final (cycle sample_repr cycle_quiet sys0)) = []"
  by (auto simp: sample_defs code_defs is_copy_def)

section \<open>The shape of the store\<close>

lemma store_shape_iff:
  "store_shape ds \<longleftrightarrow>
     (\<exists>v1 v2 v3. ds = [(''earthquakes'', v1), (''weather'', v2), (''crypto'', v3)]
        \<and> is_str_list v1 \<and> is_dict v2 \<and> is_dict v3)"
  by (auto simp: store_shape_def split: list.splits prod.splits)

lemma earthquakes_section_shape:
  "earthquakes_section repr r = Inr (Some v) \<Longrightarrow> is_str_list v"
  by (auto simp: earthquakes_section_def list_all_iff
      split: response.splits if_splits option.splits sum.splits)

lemma weather_section_shape: "weather_section r = Inr (Some v) \<Longrightarrow> is_dict v"
  by (auto simp: weather_section_def split: response.splits if_splits option.splits sum.splits)

lemma crypto_section_shape: "crypto_section r = Inr (Some v) \<Longrightarrow> is_dict v"
  by (auto simp: crypto_section_def split: response.splits if_splits option.splits sum.splits)

lemma store_shape_assign:
  assumes "store_shape ds"
  shows "r = None \<or> (\<exists>v. r = Some v \<and> is_str_list v) \<Longrightarrow> store_shape (assign ''earthquakes'' r ds)"
    and "r = None \<or> (\<exists>v. r = Some v \<and> is_dict v) \<Longrightarrow> store_shape (assign ''weather'' r ds)"
    and "r = None \<or> (\<exists>v. r = Some v \<and> is_dict v) \<Longrightarrow> store_shape (assign ''crypto'' r ds)"
  using assms by (auto simp: store_shape_iff assign_def)

lemma store_shape_try_block:
  assumes "store_shape ds"
  shows "store_shape (fst (try_block repr f ds))"
proof -
  have e: "store_shape (assign ''earthquakes'' q ds)"
    if "earthquakes_section repr (eq_resp f) = Inr q" for q
    using that assms earthquakes_section_shape [of repr "eq_resp f"]
    by (cases q) (auto intro: store_shape_assign)
  have w: "store_shape (assign ''weather'' x ds')"
    if "weather_section (weather_resp f) = Inr x" "store_shape ds'" for x ds'
    using that weather_section_shape [of "weather_resp f"]
    by (cases x) (auto intro: store_shape_assign)
  have c: "store_shape (assign ''crypto'' x ds')"
    if "crypto_section (crypto_resp f) = Inr x" "store_shape ds'" for x ds'
    using that crypto_section_shape [of "crypto_resp f"]
    by (cases x) (auto intro: store_shape_assign)
  show ?thesis
    using assms e w c by (auto simp: try_block_def Let_def split: sum.splits)
qed

lemma store_shape_cycle:
  assumes "store_shape (data_store s)"
  shows "store_shape (data_store (final (cycle repr c s)))"
proof -
  define u where "u = fetch_phase repr (responses c) (handlers (before c) s)"
  have "store_shape (data_store u)"
    using store_shape_try_block [OF assms] by (simp add: u_def data_store_fetch_phase handlers_keeps)
  then have "store_shape (data_store (final (broadcast (pushes c) (members c) u)))"
    by (simp add: broadcast_keeps)
  then show ?thesis
    by (cases "broadcast (pushes c) (members c) u")
       (auto simp: cycle_def handlers_keeps simp flip: u_def)
qed

lemma store_shape_fetch_feeds:
  "store_shape (data_store s) \<Longrightarrow> store_shape (data_store (final (fetch_feeds repr cs s)))"
proof (induction cs arbitrary: s)
  case Nil
  then show ?case by simp
next
  case (Cons c cs)
  from store_shape_cycle [OF Cons.prems, of repr c]
  have c: "store_shape (data_store (final (cycle repr c s)))" .
  show ?case
  proof (cases "cycle repr c s")
    case (Inl x)
    with c show ?thesis by (cases x) simp
  next
    case (Inr a)
    with c Cons.IH [of a] show ?thesis by simp
  qed
qed

text \<open>
  Claim C10. The store has the three sections \<open>earthquakes\<close>, \<open>weather\<close> and \<open>crypto\<close>
  and no other; \<open>earthquakes\<close> is a list of strings, \<open>weather\<close> and \<open>crypto\<close> are dicts.
  This holds initially, is kept by a fetch with any feed outcome, by a handler step, by a
  broadcast and by a whole cycle, and so holds after any run and any handler steps.
\<close>

theorem store_shape_invariant:
  "store_shape (data_store sys0)
   \<and> (store_shape (data_store s) \<longrightarrow>
        store_shape (data_store (fetch_phase repr f s))
        \<and> store_shape (data_store (websocket_endpoint e s))
        \<and> store_shape (data_store (final (broadcast pe ms s)))
        \<and> store_shape (data_store (final (cycle repr c s))))
   \<and> store_shape (data_store (handlers es (final (fetch_feeds repr cs sys0))))"
proof -
  have init: "store_shape (data_store sys0)"
    by (simp add: store_shape_def sys0_def data_store0_def)
  moreover have "store_shape (data_store (fetch_phase repr f s))"
    "store_shape (data_store (websocket_endpoint e s))"
    "store_shape (data_store (final (broadcast pe ms s)))"
    "store_shape (data_store (final (cycle repr c s)))"
    if "store_shape (data_store s)"
    using that store_shape_try_block [OF that] store_shape_cycle [OF that]
    by (simp_all add: data_store_fetch_phase websocket_endpoint_keeps broadcast_keeps)
  moreover have "store_shape (data_store (handlers es (final (fetch_feeds repr cs sys0))))"
    using store_shape_fetch_feeds [OF init] by (simp add: handlers_keeps)
  ultimately show ?thesis by blast
qed

theorem store_shape_invariant_witness:
  "store_shape (data_store sys0)
   \<and> store_shape (data_store (fetch_phase sample_repr
        \<lparr>eq_resp = sample_eq, weather_resp = ConnectFailed, crypto_resp = sample_crypto\<rparr> sys0))
   \<and> store_shape (data_store (final (cycle sample_repr cycle_race sys0)))"
  using store_shape_invariant [where s = sys0 and repr = sample_repr and c = cycle_race
      and f = "\<lparr>eq_resp = sample_eq, weather_resp = ConnectFailed, crypto_resp = sample_crypto\<rparr>"]
  by simp

end
